theory Spec2Isabelle
  imports Main "HOL-Library.Sublist" "HOL-Library.List_Lexorder" "HOL-Library.Char_ord"
    "HOL-Library.AList"
begin

section \<open>The Hostex bridge: API client, message normalizer and conversation sync\<close>

text \<open>
  A shallow embedding of \<^verbatim>\<open>pkg/hostexapi/client.go\<close> and
  \<^verbatim>\<open>pkg/connector/connector.go\<close>. Go strings are byte strings (\<open>string\<close>), a
  \<^verbatim>\<open>time.Time\<close> is the number of nanoseconds since Go's zero time (so the zero value of
  a \<^verbatim>\<open>time.Time\<close> variable is \<open>0\<close> and \<^verbatim>\<open>a.After(b)\<close> is \<open>b < a\<close>), a Go
  \<^verbatim>\<open>error\<close> is the text its \<^verbatim>\<open>Error()\<close> method prints, and a Go map is a partial
  function. Everything the code obtains from outside (HTTP round trips, the bridge
  framework, the clock) is a field of an environment record; everything it does to the
  outside (API calls, queued remote events) is an entry of the returned trace.
\<close>

type_synonym time = int
type_synonym error = string

subsection \<open>Values decoded by encoding/json into an empty interface\<close>

text \<open>
  \<^verbatim>\<open>interface{}\<close> fields (\<^verbatim>\<open>APIResponse.ErrorCode\<close>, \<^verbatim>\<open>Message.Attachment\<close>) hold
  what \<^verbatim>\<open>encoding/json\<close> decodes: \<^verbatim>\<open>nil\<close>, a \<^verbatim>\<open>bool\<close>, a \<^verbatim>\<open>float64\<close>, a
  \<^verbatim>\<open>string\<close>, a slice or a \<^verbatim>\<open>map[string]interface{}\<close>. The code never computes with
  a \<^verbatim>\<open>float64\<close>; it only prints it with \<^verbatim>\<open>%v\<close>, and that printing is injective on
  the finite floats JSON can produce. \<open>JNum\<close> therefore holds the number as the text
  \<^verbatim>\<open>%v\<close> prints for it: \<open>JNum ''200''\<close> is the number 200, however it was written on
  the wire. \<open>JObj\<close> holds a Go map as an association list read with \<open>map_of\<close>.
\<close>

datatype json =
    JNull
  | JBool bool
  | JNum string
  | JStr string
  | JArr "json list"
  | JObj "(string \<times> json) list"

definition join_sp :: "string list \<Rightarrow> string" where
  "join_sp xs = concat (case xs of [] \<Rightarrow> [] | y # ys \<Rightarrow> y # map (\<lambda>s. CHR '' '' # s) ys)"

text \<open>
  \<^verbatim>\<open>fmt.Sprintf("%v", x)\<close> for such a value: \<^verbatim>\<open><nil>\<close>, \<^verbatim>\<open>true\<close>, the number,
  the string itself, \<^verbatim>\<open>[a b c]\<close> for a slice and \<^verbatim>\<open>map[k1:v1 k2:v2]\<close> with the keys
  sorted for a map.
\<close>

fun sprintf_v :: "json \<Rightarrow> string" where
  "sprintf_v JNull = ''<nil>''"
| "sprintf_v (JBool b) = (if b then ''true'' else ''false'')"
| "sprintf_v (JNum r) = r"
| "sprintf_v (JStr s) = s"
| "sprintf_v (JArr xs) = ''['' @ join_sp (map sprintf_v xs) @ '']''"
| "sprintf_v (JObj kvs) =
     ''map['' @ join_sp (map (\<lambda>(k, r). k @ '':'' @ r)
        (sort_key fst (AList.clearjunk (map (\<lambda>(k, v). (k, sprintf_v v)) kvs)))) @ '']''"

subsection \<open>The functions of package strings that the code calls\<close>

fun strings_Index :: "string \<Rightarrow> string \<Rightarrow> int" where
  "strings_Index [] substr = (if substr = [] then 0 else - 1)"
| "strings_Index (c # s) substr =
     (if prefix substr (c # s) then 0
      else (let i = strings_Index s substr in if i = - 1 then - 1 else i + 1))"

fun strings_LastIndex :: "string \<Rightarrow> string \<Rightarrow> int" where
  "strings_LastIndex [] substr = (if substr = [] then 0 else - 1)"
| "strings_LastIndex (c # s) substr =
     (let i = strings_LastIndex s substr in
      if i \<noteq> - 1 then i + 1
      else if prefix substr (c # s) then 0 else - 1)"

definition strings_Contains :: "string \<Rightarrow> string \<Rightarrow> bool" where
  "strings_Contains s substr = (0 \<le> strings_Index s substr)"

definition strings_HasPrefix :: "string \<Rightarrow> string \<Rightarrow> bool" where
  "strings_HasPrefix s p = prefix p s"

text \<open>\<^verbatim>\<open>strings.Split(s, sep)\<close> for a separator of one byte (the code only splits at "/").\<close>

fun strings_Split :: "string \<Rightarrow> char \<Rightarrow> string list" where
  "strings_Split [] sep = [[]]"
| "strings_Split (c # s) sep =
     (if c = sep then [] # strings_Split s sep
      else (case strings_Split s sep of
              [] \<Rightarrow> [[c]]
            | p # ps \<Rightarrow> (c # p) # ps))"

subsection \<open>client.go: the response envelope and doRequest\<close>

record APIResponse =
  RequestID :: string
  Data :: json
  ErrorCode :: json
  ErrorMsg :: string

text \<open>
  What one HTTP round trip of \<^verbatim>\<open>doRequest\<close> meets, in the order of the code: the request
  body cannot be marshalled, the request cannot be built, \<^verbatim>\<open>httpClient.Do\<close> fails (a
  timeout, a reset connection), the response body is not the JSON of an envelope, or an
  envelope is decoded. Each failure carries the text of the underlying error.
\<close>

datatype round_trip =
    MarshalFails error
  | NewRequestFails error
  | DoFails error
  | DecodeFails error
  | Decoded APIResponse

text \<open>\<^verbatim>\<open>doRequest\<close> returns the pair \<^verbatim>\<open>(*APIResponse, error)\<close>; \<open>None\<close> is \<^verbatim>\<open>nil\<close>.\<close>

definition doRequest :: "round_trip \<Rightarrow> APIResponse option \<times> error option" where
  "doRequest rt =
     (case rt of
        MarshalFails e \<Rightarrow> (None, Some (''failed to marshal request body: '' @ e))
      | NewRequestFails e \<Rightarrow> (None, Some (''failed to create request: '' @ e))
      | DoFails e \<Rightarrow> (None, Some (''failed to execute request: '' @ e))
      | DecodeFails e \<Rightarrow> (None, Some (''failed to decode response: '' @ e))
      | Decoded apiResp \<Rightarrow>
          (if ErrorCode apiResp \<noteq> JNull \<and> ErrorCode apiResp \<noteq> JStr [] then
             (let errorCodeStr = sprintf_v (ErrorCode apiResp) in
              if errorCodeStr \<noteq> ''200'' then
                (Some apiResp,
                 Some (''API error '' @ sprintf_v (ErrorCode apiResp) @ '': '' @ ErrorMsg apiResp))
              else (Some apiResp, None))
           else (Some apiResp, None)))"

subsection \<open>connector.go: messages and the normalizer (ConvertMessageFunc)\<close>

record Message =
  ID :: string
  SenderRole :: string
  DisplayType :: string
  Content :: string
  Attachment :: json
  CreatedAt :: time

datatype msg_type = MsgText | MsgImage | MsgFile

text \<open>
  A \<^verbatim>\<open>ConvertedMessagePart\<close>: every part the code builds is an \<^verbatim>\<open>m.room.message\<close>
  event with a message type, a body and, for uploaded media, the \<^verbatim>\<open>mxc\<close> URL.
\<close>

record part =
  MsgType :: msg_type
  Body :: string
  URL :: string

definition text_part :: "string \<Rightarrow> part" where
  "text_part b = \<lparr>MsgType = MsgText, Body = b, URL = []\<rparr>"

record http_response =
  Header_Content_Type :: string
  ReadAll_Body :: "error + string"

text \<open>
  The world of one conversion: \<^verbatim>\<open>http.Get\<close> and the intent's \<^verbatim>\<open>UploadMedia\<close>
  (called with the downloaded bytes, the file name and the MIME type; it returns the
  \<^verbatim>\<open>mxc\<close> URL).
\<close>

record convert_env =
  http_Get :: "string \<Rightarrow> error + http_response"
  UploadMedia :: "string \<Rightarrow> string \<Rightarrow> string \<Rightarrow> error + string"

text \<open>The paperclip sign U+1F4CE that starts the failure texts, in UTF-8.\<close>

definition paperclip :: string where
  "paperclip = [CHR 0xF0, CHR 0x9F, CHR 0x93, CHR 0x8E]"

text \<open>
  The three field-probing loops of the structured branch have one shape:
  \<^verbatim>\<open>for _, f := range fields { if v, ok := attachmentObj[f].(string); ok && v != "" { ...; break } }\<close>.
  \<open>firstStringField\<close> returns the value the loop stops at.
\<close>

fun firstStringField :: "string list \<Rightarrow> (string \<rightharpoonup> json) \<Rightarrow> string option" where
  "firstStringField [] attachmentObj = None"
| "firstStringField (f # fs) attachmentObj =
     (case attachmentObj f of
        Some (JStr v) \<Rightarrow> (if v \<noteq> [] then Some v else firstStringField fs attachmentObj)
      | _ \<Rightarrow> firstStringField fs attachmentObj)"

definition urlFields :: "string list" where
  "urlFields = [''fullback_url'', ''url'', ''URL'', ''src'', ''href'', ''link'']"

definition nameFields :: "string list" where
  "nameFields = [''filename'', ''name'', ''title'']"

definition typeFields :: "string list" where
  "typeFields = [''type'', ''mime_type'', ''mimeType'', ''content_type'']"

definition isSizeName :: "string \<Rightarrow> bool" where
  "isSizeName filename =
     (filename = ''xlarge'' \<or> filename = ''large'' \<or> filename = ''medium'' \<or> filename = ''small'')"

text \<open>Lines 791-802: the file name taken from the text after the last slash of the URL.\<close>

definition filenameFromURL :: "string \<Rightarrow> string \<Rightarrow> string" where
  "filenameFromURL filename attachmentURL =
     (let lastSlash = strings_LastIndex attachmentURL ''/'' in
      if lastSlash \<noteq> - 1 then
        (let urlFilename = drop (nat (lastSlash + 1)) attachmentURL in
         if urlFilename \<noteq> [] \<and> \<not> strings_Contains urlFilename ''?'' then urlFilename
         else if strings_Contains urlFilename ''?'' then
           (let qIndex = strings_Index urlFilename ''?'' in
            if qIndex \<noteq> - 1 then take (nat qIndex) urlFilename else filename)
         else filename)
      else filename)"

text \<open>
  Lines 803-822: a size name is replaced by the nearest earlier path segment that holds
  a dot (the loop runs from \<^verbatim>\<open>len(parts)-2\<close> down to 0 and breaks at the first hit),
  but only in a URL that contains ".jpeg/" or ".jpg/"; a size name that is left becomes
  "image.jpg".
\<close>

definition sizeNameFix :: "string \<Rightarrow> string \<Rightarrow> string" where
  "sizeNameFix filename attachmentURL =
     (if isSizeName filename then
        (let filename1 =
           (if strings_Contains attachmentURL ''.jpeg/'' \<or> strings_Contains attachmentURL ''.jpg/'' then
              (let parts = strings_Split attachmentURL CHR ''/'' in
               if 2 \<le> length parts then
                 (case find (\<lambda>p. strings_Contains p ''.'') (rev (butlast parts)) of
                    Some p \<Rightarrow> p
                  | None \<Rightarrow> filename)
               else filename)
            else filename)
         in if isSizeName filename1 then ''image.jpg'' else filename1)
      else filename)"

text \<open>Lines 782-823: the file name of a structured attachment with URL \<open>attachmentURL\<close>.\<close>

definition attachmentFilename :: "(string \<rightharpoonup> json) \<Rightarrow> string \<Rightarrow> string" where
  "attachmentFilename attachmentObj attachmentURL =
     (let filename = (case firstStringField nameFields attachmentObj of
                        Some name \<Rightarrow> name
                      | None \<Rightarrow> ''attachment'')
      in if filename = ''attachment'' \<and> attachmentURL \<noteq> [] then
           sizeNameFix (filenameFromURL filename attachmentURL) attachmentURL
         else filename)"

text \<open>Lines 826-836: the MIME type the attachment object declares, \<open>[]\<close> when it declares none.\<close>

definition attachmentMimeType :: "(string \<rightharpoonup> json) \<Rightarrow> string" where
  "attachmentMimeType attachmentObj =
     (case firstStringField typeFields attachmentObj of
        Some attachType \<Rightarrow> (if attachType = ''image'' then ''image/jpeg'' else attachType)
      | None \<Rightarrow> [])"

text \<open>Lines 863-868: the MIME type the upload is made with.\<close>

definition uploadMimeType :: "string \<Rightarrow> string \<Rightarrow> string" where
  "uploadMimeType mimeType responseMimeType =
     (if responseMimeType \<noteq> [] then responseMimeType
      else if mimeType = [] then ''application/octet-stream''
      else mimeType)"

definition msgTypeOf :: "string \<Rightarrow> msg_type" where
  "msgTypeOf mimeType = (if strings_HasPrefix mimeType ''image/'' then MsgImage else MsgFile)"

text \<open>
  Lines 765-916, the structured branch: the parts it appends and the flag
  \<^verbatim>\<open>processed\<close>. \<^verbatim>\<open>json.Marshal\<close> of a decoded value cannot fail, and
  \<^verbatim>\<open>json.Unmarshal\<close> into a \<^verbatim>\<open>map[string]interface{}\<close> succeeds exactly for an object
  (the attachment is not \<^verbatim>\<open>nil\<close> here).
\<close>

definition structuredBranch :: "convert_env \<Rightarrow> json \<Rightarrow> part list \<times> bool" where
  "structuredBranch env attachment =
     (case attachment of
        JObj kvs \<Rightarrow>
          (let attachmentObj = map_of kvs;
               attachmentURL = (case firstStringField urlFields attachmentObj of
                                  Some url \<Rightarrow> url | None \<Rightarrow> [])
           in if attachmentURL \<noteq> [] then
                (let filename = attachmentFilename attachmentObj attachmentURL;
                     mimeType = attachmentMimeType attachmentObj
                 in case http_Get env attachmentURL of
                      Inl err \<Rightarrow>
                        ([text_part (paperclip @ '' '' @ filename @ '': '' @ attachmentURL
                            @ '' (download failed)'')], False)
                    | Inr resp \<Rightarrow>
                        (case ReadAll_Body resp of
                           Inl err \<Rightarrow>
                             ([text_part (paperclip @ '' '' @ filename @ '': '' @ attachmentURL
                                 @ '' (read failed)'')], False)
                         | Inr imageData \<Rightarrow>
                             (let mimeType1 = uploadMimeType mimeType (Header_Content_Type resp);
                                  msgType = msgTypeOf mimeType1
                              in case UploadMedia env imageData filename mimeType1 of
                                   Inl err \<Rightarrow>
                                     ([text_part (paperclip @ '' '' @ filename @ '': ''
                                         @ attachmentURL @ '' (upload failed: '' @ err @ '')'')],
                                      False)
                                 | Inr mxcURL \<Rightarrow>
                                     (if mxcURL = [] then
                                        ([text_part (paperclip @ '' '' @ filename @ '': ''
                                            @ attachmentURL
                                            @ '' (Matrix upload returned empty URL)'')], False)
                                      else
                                        ([\<lparr>MsgType = msgType, Body = filename, URL = mxcURL\<rparr>],
                                         True)))))
              else ([], False))
      | _ \<Rightarrow> ([], False))"

text \<open>Lines 952-970 of the string branch: message type and file name from the MIME type.\<close>

definition stringFilename :: "string \<Rightarrow> string" where
  "stringFilename mimeType =
     (if strings_HasPrefix mimeType ''image/'' then
        (if mimeType = ''image/jpeg'' then ''image.jpg''
         else if mimeType = ''image/png'' then ''image.png''
         else if mimeType = ''image/gif'' then ''image.gif''
         else if mimeType = ''image/webp'' then ''image.webp''
         else ''image'')
      else ''attachment'')"

text \<open>Lines 919-1009, the string branch, entered when \<^verbatim>\<open>processed\<close> is false.\<close>

definition stringBranch :: "convert_env \<Rightarrow> json \<Rightarrow> part list" where
  "stringBranch env attachment =
     (case attachment of
        JStr attachmentStr \<Rightarrow>
          (if attachmentStr \<noteq> [] then
             (case http_Get env attachmentStr of
                Inl err \<Rightarrow>
                  [text_part (paperclip @ '' Image: '' @ attachmentStr @ '' (download failed)'')]
              | Inr resp \<Rightarrow>
                  (case ReadAll_Body resp of
                     Inl err \<Rightarrow>
                       [text_part (paperclip @ '' Image: '' @ attachmentStr @ '' (read failed)'')]
                   | Inr imageData \<Rightarrow>
                       (let mimeType = (if Header_Content_Type resp = []
                                        then ''application/octet-stream''
                                        else Header_Content_Type resp);
                            msgType = msgTypeOf mimeType;
                            filename = stringFilename mimeType
                        in case UploadMedia env imageData filename mimeType of
                             Inl err \<Rightarrow>
                               [text_part (paperclip @ '' '' @ filename @ '': '' @ attachmentStr
                                  @ '' (upload failed: '' @ err @ '')'')]
                           | Inr mxcURL \<Rightarrow>
                               (if mxcURL = [] then
                                  [text_part (paperclip @ '' '' @ filename @ '': '' @ attachmentStr
                                     @ '' (Matrix upload returned empty URL)'')]
                                else [\<lparr>MsgType = msgType, Body = filename, URL = mxcURL\<rparr>]))))
           else [])
      | _ \<Rightarrow> [])"

text \<open>
  \<^verbatim>\<open>ConvertMessageFunc\<close> (lines 742-1027) returns \<^verbatim>\<open>(*ConvertedMessage, error)\<close>:
  \<open>Inr\<close> the parts, \<open>Inl\<close> an error.
\<close>

definition ConvertMessageFunc :: "convert_env \<Rightarrow> Message \<Rightarrow> error + part list" where
  "ConvertMessageFunc env data =
     (let parts0 = (if Content data \<noteq> [] then [text_part (Content data)] else []);
          parts1 =
            (if Attachment data \<noteq> JNull then
               (let (added, processed) = structuredBranch env (Attachment data);
                    parts = parts0 @ added
                in if \<not> processed then parts @ stringBranch env (Attachment data) else parts)
             else parts0);
          parts2 = (if length parts1 = 0 then [text_part ''(Empty message)''] else parts1)
      in Inr parts2)"

subsection \<open>connector.go: the state of one login and the world of one poll\<close>

text \<open>
  Of \<^verbatim>\<open>Conversation\<close> the code reads \<^verbatim>\<open>ID\<close> (here \<open>Conv_ID\<close>, as \<open>ID\<close> is the
  field of \<open>Message\<close>), \<^verbatim>\<open>LastMessageAt\<close> and \<^verbatim>\<open>Guest.Name\<close>.
\<close>

record Conversation =
  Conv_ID :: string
  LastMessageAt :: time
  Guest_Name :: string

text \<open>
  Of \<^verbatim>\<open>ConversationDetails\<close> the code reads the messages (newest first) and, of each
  activity, \<^verbatim>\<open>Property.Title\<close>: \<open>Activities\<close> lists these titles.
\<close>

record ConversationDetails =
  Activities :: "string list"
  Messages :: "Message list"

text \<open>
  \<^verbatim>\<open>HostexNetworkAPI\<close>: the login's id and its four maps. The mutexes protect the maps
  and have no part in a sequential run.
\<close>

record HostexNetworkAPI =
  login_ID :: string
  guestNames :: "string \<rightharpoonup> string"
  lastMessageTime :: "string \<rightharpoonup> time"
  conversationLastMsgTime :: "string \<rightharpoonup> time"
  sentMessages :: "string \<rightharpoonup> time"

text \<open>
  The world of one run of \<^verbatim>\<open>syncConversations\<close>: the results of the two API calls,
  the bridge's portal lookup (\<open>None\<close> for a \<^verbatim>\<open>nil\<close> portal, else the portal's
  \<^verbatim>\<open>MXID\<close>) and the reading of the clock that \<^verbatim>\<open>time.Since\<close> takes (one
  reading for all echo tests of the run).
\<close>

record poll_env =
  GetConversations :: "error + Conversation list"
  GetConversationDetails :: "string \<Rightarrow> error + ConversationDetails"
  GetExistingPortalByKey :: "string \<Rightarrow> string option"
  time_Now :: time

text \<open>
  What a run does to the outside, in order: a call of \<^verbatim>\<open>GetConversationDetails\<close> and
  the remote events handed to \<^verbatim>\<open>QueueRemoteEvent\<close>. A chat-info change carries the
  portal id, \<^verbatim>\<open>CreatePortal\<close>, the room name, the topic and the timestamp; a message
  event carries the portal id, the sender id, \<^verbatim>\<open>IsFromMe\<close> and the message (its id and
  timestamp are the message's).
\<close>

datatype action =
    DetailFetch string
  | ChatInfoChange string bool string string time
  | MessageEvent string string bool Message

definition two_minutes :: int where
  "two_minutes = 2 * 60 * 1000000000"

text \<open>
  Lines 691-705: the echo test of \<^verbatim>\<open>queueMessageEvent\<close>; \<open>now\<close> is the clock reading
  of \<^verbatim>\<open>time.Since\<close>. A \<^verbatim>\<open>time.Duration\<close> saturates at about 292 years either way,
  which leaves the comparison with two minutes as it is on the integers.
\<close>

definition isEcho :: "HostexNetworkAPI \<Rightarrow> time \<Rightarrow> Message \<Rightarrow> bool" where
  "isEcho hn now msg =
     (if SenderRole msg = ''host'' then
        (case sentMessages hn (Content msg) of
           Some sentTime \<Rightarrow> now - sentTime < two_minutes
         | None \<Rightarrow> False)
      else False)"

text \<open>\<^verbatim>\<open>queueMessageEvent\<close> (lines 689-1032): the events it queues.\<close>

definition queueMessageEvent ::
  "HostexNetworkAPI \<Rightarrow> time \<Rightarrow> string \<Rightarrow> Message \<Rightarrow> string \<Rightarrow> action list" where
  "queueMessageEvent hn now portalKey msg conversationID =
     (if isEcho hn now msg then []
      else
        (let (senderID, isFromMe) =
               (if SenderRole msg = ''host'' then (''host_'' @ login_ID hn, True)
                else (''guest_'' @ conversationID, False))
         in [MessageEvent portalKey senderID isFromMe msg]))"

text \<open>
  Lines 645-671: the loop over an existing room's messages, given in the order the loop
  visits them (last index first). It returns \<^verbatim>\<open>latestMessageTime\<close> and the events.
\<close>

fun newMessages ::
  "HostexNetworkAPI \<Rightarrow> time \<Rightarrow> string \<Rightarrow> time \<Rightarrow> Message list \<Rightarrow> time \<Rightarrow> time \<times> action list" where
  "newMessages hn now convID lastProcessedTime [] latestMessageTime = (latestMessageTime, [])"
| "newMessages hn now convID lastProcessedTime (msg # rest) latestMessageTime =
     (let latest1 = (if latestMessageTime < CreatedAt msg then CreatedAt msg
                     else latestMessageTime);
          queued = (if lastProcessedTime < CreatedAt msg
                    then queueMessageEvent hn now convID msg convID else []);
          (latest2, more) = newMessages hn now convID lastProcessedTime rest latest1
      in (latest2, queued @ more))"

text \<open>
  \<^verbatim>\<open>processConversation\<close> (lines 510-687). The error of the portal lookup is overwritten
  by the result of the detail fetch, so after the early return only the portal itself
  decides the branch.
\<close>

definition processConversation ::
  "poll_env \<Rightarrow> Conversation \<Rightarrow> HostexNetworkAPI \<Rightarrow> HostexNetworkAPI \<times> action list" where
  "processConversation env conv hn =
     (let portal = GetExistingPortalByKey env (Conv_ID conv) in
      case GetConversationDetails env (Conv_ID conv) of
        Inl err \<Rightarrow> (hn, [DetailFetch (Conv_ID conv)])
      | Inr details \<Rightarrow>
          (let propertyName =
                 (case Activities details of
                    [] \<Rightarrow> ''Unknown Property''
                  | title # _ \<Rightarrow> (if title \<noteq> [] then title else ''Unknown Property''));
               hn1 = hn\<lparr>guestNames := (guestNames hn)(Conv_ID conv \<mapsto> Guest_Name conv)\<rparr>;
               roomName = ''('' @ propertyName @ '') - '' @ Guest_Name conv
           in if portal = None \<or> portal = Some [] then
                (hn1,
                 [DetailFetch (Conv_ID conv),
                  ChatInfoChange (Conv_ID conv) True roomName propertyName (LastMessageAt conv)]
                 @ concat (map (\<lambda>msg. queueMessageEvent hn1 (time_Now env) (Conv_ID conv) msg
                                        (Conv_ID conv))
                             (rev (Messages details))))
              else
                (let (hn2, lastProcessedTime) =
                       (case lastMessageTime hn1 (Conv_ID conv) of
                          Some t \<Rightarrow> (hn1, t)
                        | None \<Rightarrow>
                            (if 0 < length (Messages details) then
                               (let oldestMsg = last (Messages details) in
                                (hn1\<lparr>lastMessageTime :=
                                        (lastMessageTime hn1)(Conv_ID conv \<mapsto> CreatedAt oldestMsg)\<rparr>,
                                 CreatedAt oldestMsg))
                             else (hn1, 0)));
                     (latestMessageTime, queued) =
                       newMessages hn2 (time_Now env) (Conv_ID conv) lastProcessedTime
                         (rev (Messages details)) lastProcessedTime;
                     hn3 = (if lastProcessedTime < latestMessageTime then
                              hn2\<lparr>lastMessageTime :=
                                    (lastMessageTime hn2)(Conv_ID conv \<mapsto> latestMessageTime)\<rparr>
                            else hn2)
                 in (hn3,
                     [DetailFetch (Conv_ID conv),
                      ChatInfoChange (Conv_ID conv) False roomName propertyName (LastMessageAt conv)]
                     @ queued))))"

text \<open>Lines 477-507: the loop of \<^verbatim>\<open>syncConversations\<close> over the conversations.\<close>

fun syncLoop ::
  "poll_env \<Rightarrow> Conversation list \<Rightarrow> HostexNetworkAPI \<Rightarrow> HostexNetworkAPI \<times> action list" where
  "syncLoop env [] hn = (hn, [])"
| "syncLoop env (conv # convs) hn =
     (let skip = (case conversationLastMsgTime hn (Conv_ID conv) of
                    Some cachedLastMsgTime \<Rightarrow> \<not> (cachedLastMsgTime < LastMessageAt conv)
                  | None \<Rightarrow> False)
      in if skip then syncLoop env convs hn
         else
           (let hn1 = hn\<lparr>conversationLastMsgTime :=
                          (conversationLastMsgTime hn)(Conv_ID conv \<mapsto> LastMessageAt conv)\<rparr>;
                (hn2, acts) = processConversation env conv hn1;
                (hn3, more) = syncLoop env convs hn2
            in (hn3, acts @ more)))"

text \<open>\<^verbatim>\<open>syncConversations\<close> (lines 463-508).\<close>

definition syncConversations ::
  "poll_env \<Rightarrow> HostexNetworkAPI \<Rightarrow> HostexNetworkAPI \<times> action list" where
  "syncConversations env hn =
     (case GetConversations env of
        Inl err \<Rightarrow> (hn, [])
      | Inr conversations \<Rightarrow>
          (let conversations1 = (if 10 < length conversations then take 10 conversations
                                 else conversations)
           in syncLoop env conversations1 hn))"

text \<open>
  \<^verbatim>\<open>HandleMatrixMessage\<close> (lines 367-419), as far as the login's state goes: with no
  portal or a failed \<^verbatim>\<open>SendMessage\<close> it returns an error and records nothing, else it
  stores the clock reading under the body. \<open>sendResult\<close> is what \<^verbatim>\<open>client.SendMessage\<close>
  returns and \<open>now\<close> the reading of \<^verbatim>\<open>time.Now()\<close>.
\<close>

definition HandleMatrixMessage ::
  "string option \<Rightarrow> string \<Rightarrow> error + Message \<Rightarrow> time \<Rightarrow> HostexNetworkAPI
     \<Rightarrow> HostexNetworkAPI \<times> error option" where
  "HandleMatrixMessage portal body sendResult now hn =
     (case portal of
        None \<Rightarrow> (hn, Some ''no portal found for message'')
      | Some conversationID \<Rightarrow>
          (case sendResult of
             Inl err \<Rightarrow> (hn, Some (''failed to send message to Hostex: '' @ err))
           | Inr sentMessage \<Rightarrow>
               (hn\<lparr>sentMessages := (sentMessages hn)(body \<mapsto> now)\<rparr>, None)))"

text \<open>
  Lines 1128-1141 of \<^verbatim>\<open>handleRefreshCommand\<close>: the activity cache is emptied before a
  sync is started.
\<close>

definition clearConversationCache :: "HostexNetworkAPI \<Rightarrow> HostexNetworkAPI" where
  "clearConversationCache hn = hn\<lparr>conversationLastMsgTime := Map.empty\<rparr>"

text \<open>
  What can happen to a login between and after polls: a run of \<^verbatim>\<open>syncConversations\<close>
  (the ticker, the sync and cleanup commands), a message sent from Matrix, or the
  refresh command (cache cleared, then a sync).
\<close>

datatype step =
    Poll poll_env
  | MatrixSend "string option" string "error + Message" time
  | Refresh poll_env

fun run_step :: "step \<Rightarrow> HostexNetworkAPI \<Rightarrow> HostexNetworkAPI \<times> action list" where
  "run_step (Poll env) hn = syncConversations env hn"
| "run_step (MatrixSend portal body sendResult now) hn =
     (fst (HandleMatrixMessage portal body sendResult now hn), [])"
| "run_step (Refresh env) hn = syncConversations env (clearConversationCache hn)"

fun run :: "step list \<Rightarrow> HostexNetworkAPI \<Rightarrow> HostexNetworkAPI \<times> action list" where
  "run [] hn = (hn, [])"
| "run (st # sts) hn =
     (let (hn1, acts) = run_step st hn;
          (hn2, more) = run sts hn1
      in (hn2, acts @ more))"

section \<open>Vocabulary of the statements\<close>

text \<open>
  The message event that \<^verbatim>\<open>queueMessageEvent\<close> builds for a message it does not
  suppress (lines 707-741).
\<close>

definition eventOf :: "HostexNetworkAPI \<Rightarrow> string \<Rightarrow> Message \<Rightarrow> action" where
  "eventOf hn convID msg =
     MessageEvent convID
       (if SenderRole msg = ''host'' then ''host_'' @ login_ID hn else ''guest_'' @ convID)
       (SenderRole msg = ''host'') msg"

text \<open>
  Line 552 negated: the portal is not \<^verbatim>\<open>nil\<close> and its \<^verbatim>\<open>MXID\<close> is not empty.
\<close>

definition roomExists :: "poll_env \<Rightarrow> string \<Rightarrow> bool" where
  "roomExists env cid = (case GetExistingPortalByKey env cid of None \<Rightarrow> False | Some mxid \<Rightarrow> mxid \<noteq> [])"

text \<open>
  The conversation an action belongs to.
\<close>

fun action_conv :: "action \<Rightarrow> string" where
  "action_conv (DetailFetch c) = c"
| "action_conv (ChatInfoChange c cr n t ts) = c"
| "action_conv (MessageEvent c s f msg) = c"

text \<open>
  A step in which the room of \<open>cid\<close> exists (a sent message looks up no room).
\<close>

definition stepRoomExists :: "string \<Rightarrow> step \<Rightarrow> bool" where
  "stepRoomExists cid st =
     (case st of
        Poll env \<Rightarrow> roomExists env cid
      | MatrixSend portal body sendResult now \<Rightarrow> True
      | Refresh env \<Rightarrow> roomExists env cid)"

text \<open>
  An action that is not a message event of \<open>cid\<close> at or before \<open>m\<close>.
\<close>

definition late :: "string \<Rightarrow> time \<Rightarrow> action \<Rightarrow> bool" where
  "late cid m a = (case a of MessageEvent c s f msg \<Rightarrow> c \<noteq> cid \<or> m < CreatedAt msg | _ \<Rightarrow> True)"

section \<open>Example inputs\<close>

text \<open>
  One conversation \<open>c1\<close> of guest Ann, last active at time 5, with a history of five
  guest messages (newest first), or with a host message "On my way" above two guest
  messages; a login with empty maps; a world that lists \<open>c1\<close>, answers the detail
  fetch with \<open>details\<close>, finds \<open>portal\<close> as the room and reads the clock at 1000.
\<close>

definition example_message :: "string \<Rightarrow> string \<Rightarrow> string \<Rightarrow> time \<Rightarrow> Message" where
  "example_message i role body t =
     \<lparr>ID = i, SenderRole = role, DisplayType = ''Text'', Content = body, Attachment = JNull,
      CreatedAt = t\<rparr>"

definition fresh_login :: HostexNetworkAPI where
  "fresh_login =
     \<lparr>login_ID = ''hostex_0a1b2c3d'', guestNames = Map.empty, lastMessageTime = Map.empty,
      conversationLastMsgTime = Map.empty, sentMessages = Map.empty\<rparr>"

definition conv_c1 :: Conversation where
  "conv_c1 = \<lparr>Conv_ID = ''c1'', LastMessageAt = 5, Guest_Name = ''Ann''\<rparr>"

definition five_messages :: ConversationDetails where
  "five_messages =
     \<lparr>Activities = [''Villa''],
      Messages = [example_message ''m5'' ''guest'' ''e'' 5, example_message ''m4'' ''guest'' ''d'' 4,
                  example_message ''m3'' ''guest'' ''c'' 3, example_message ''m2'' ''guest'' ''b'' 2,
                  example_message ''m1'' ''guest'' ''a'' 1]\<rparr>"

definition world :: "(error + ConversationDetails) \<Rightarrow> string option \<Rightarrow> poll_env" where
  "world details portal =
     \<lparr>GetConversations = Inr [conv_c1], GetConversationDetails = (\<lambda>c. details),
      GetExistingPortalByKey = (\<lambda>c. portal), time_Now = 1000\<rparr>"

definition echo_details :: ConversationDetails where
  "echo_details =
     \<lparr>Activities = [''Villa''],
      Messages = [example_message ''m3'' ''host'' ''On my way'' 3,
                  example_message ''m2'' ''guest'' ''Where are you?'' 2,
                  example_message ''m1'' ''guest'' ''Hello'' 1]\<rparr>"

text \<open>
  The login after an earlier poll left the mark of \<open>c1\<close> at 1 and the user sent
  "On my way" from Matrix at time 990; and the same login without a mark.
\<close>

definition echo_state :: HostexNetworkAPI where
  "echo_state = fresh_login\<lparr>lastMessageTime := [''c1'' \<mapsto> 1],
                             sentMessages := [''On my way'' \<mapsto> 990]\<rparr>"

definition echo_backfill_state :: HostexNetworkAPI where
  "echo_backfill_state = fresh_login\<lparr>sentMessages := [''On my way'' \<mapsto> 990]\<rparr>"

text \<open>
  Worlds of a conversion: no network; a server that answers every download with a PDF
  content type; a server that sends no content type. The uploads return an
  \<^verbatim>\<open>mxc\<close> URL that ends in the MIME type they were called with.
\<close>

definition no_network :: convert_env where
  "no_network = \<lparr>http_Get = (\<lambda>url. Inl ''dial tcp: no route to host''),
                 UploadMedia = (\<lambda>d f m. Inl ''not reached'')\<rparr>"

definition pdf_server :: convert_env where
  "pdf_server =
     \<lparr>http_Get = (\<lambda>url. Inr \<lparr>Header_Content_Type = ''application/pdf'',
                              ReadAll_Body = Inr ''%PDF-1.7''\<rparr>),
      UploadMedia = (\<lambda>imageData filename mimeType. Inr (''mxc://hs/'' @ mimeType))\<rparr>"

definition headerless_server :: convert_env where
  "headerless_server =
     \<lparr>http_Get = (\<lambda>url. Inr \<lparr>Header_Content_Type = [], ReadAll_Body = Inr ''JFIF''\<rparr>),
      UploadMedia = (\<lambda>imageData filename mimeType. Inr (''mxc://hs/'' @ mimeType))\<rparr>"

definition caption_only_msg :: Message where
  "caption_only_msg =
     \<lparr>ID = ''m1'', SenderRole = ''guest'', DisplayType = ''Image'', Content = [],
      Attachment = JObj [(''caption'', JStr ''pool''), (''url'', JStr [])], CreatedAt = 7\<rparr>"

definition typed_image_msg :: Message where
  "typed_image_msg =
     \<lparr>ID = ''m9'', SenderRole = ''guest'', DisplayType = ''Image'', Content = [],
      Attachment = JObj [(''url'', JStr ''https://cdn.hostex.io/f/scan''), (''type'', JStr ''image'')],
      CreatedAt = 9\<rparr>"

lemmas example_defs = example_message_def fresh_login_def conv_c1_def five_messages_def world_def

lemmas sync_defs = syncConversations_def processConversation_def queueMessageEvent_def isEcho_def
  Let_def two_minutes_def

section \<open>Properties\<close>

subsection \<open>The API client\<close>

lemma sprintf_v_200: "(sprintf_v c = ''200'') = (c = JNum ''200'' \<or> c = JStr ''200'')"
  by (cases c) auto

text \<open>
  C9. For a decoded envelope \<^verbatim>\<open>doRequest\<close> returns the envelope together with an error
  exactly when the error code is present (not \<^verbatim>\<open>nil\<close>), not the empty string, and
  neither the number 200 nor the string "200"; the error then reads
  \<^verbatim>\<open>API error CODE: MESSAGE\<close>. With the code absent, empty, numeric 200 or "200" the
  error is \<^verbatim>\<open>nil\<close>. The transport failures (request not sent, no answer, malformed
  JSON) return no envelope and an error text that no decoded envelope yields.
\<close>

theorem C9_semantic_error:
  "doRequest (Decoded r) =
     (Some r,
      if ErrorCode r = JNull \<or> ErrorCode r = JStr [] \<or> ErrorCode r = JNum ''200''
         \<or> ErrorCode r = JStr ''200''
      then None
      else Some (''API error '' @ sprintf_v (ErrorCode r) @ '': '' @ ErrorMsg r))
   \<and> doRequest (MarshalFails e) = (None, Some (''failed to marshal request body: '' @ e))
   \<and> doRequest (NewRequestFails e) = (None, Some (''failed to create request: '' @ e))
   \<and> doRequest (DoFails e) = (None, Some (''failed to execute request: '' @ e))
   \<and> doRequest (DecodeFails e) = (None, Some (''failed to decode response: '' @ e))
   \<and> snd (doRequest (Decoded r)) \<notin>
        {snd (doRequest (MarshalFails e)), snd (doRequest (NewRequestFails e)),
         snd (doRequest (DoFails e)), snd (doRequest (DecodeFails e))}"
  by (auto simp: doRequest_def Let_def sprintf_v_200)

subsection \<open>Echo suppression\<close>

text \<open>
  C4. \<^verbatim>\<open>queueMessageEvent\<close> queues nothing exactly when the message has the role
  "host" and its body is stored in \<^verbatim>\<open>sentMessages\<close> with a time less than two
  minutes before the clock reading; in every other case (a guest message, a body never
  sent, a body sent two minutes ago or earlier) it queues exactly one message event.
  After \<^verbatim>\<open>HandleMatrixMessage\<close> has sent a body at time \<open>t0\<close>, the stored time of that
  body is \<open>t0\<close>.
\<close>

theorem C4_echo_suppression:
  "queueMessageEvent hn now pk msg cid =
     (if SenderRole msg = ''host'' \<and>
         (\<exists>sentTime. sentMessages hn (Content msg) = Some sentTime
            \<and> now - sentTime < 2 * 60 * 1000000000)
      then []
      else [MessageEvent pk
              (if SenderRole msg = ''host'' then ''host_'' @ login_ID hn else ''guest_'' @ cid)
              (SenderRole msg = ''host'') msg])
   \<and> sentMessages (fst (HandleMatrixMessage (Some conv) body (Inr sent) t0 hn)) body = Some t0
   \<and> queueMessageEvent (fst (HandleMatrixMessage (Some conv) (Content msg) (Inr sent) t0 hn))
        now pk msg cid
      = (if SenderRole msg = ''host'' \<and> now - t0 < 2 * 60 * 1000000000 then []
         else [MessageEvent pk
                 (if SenderRole msg = ''host'' then ''host_'' @ login_ID hn else ''guest_'' @ cid)
                 (SenderRole msg = ''host'') msg])"
  by (auto simp: queueMessageEvent_def isEcho_def HandleMatrixMessage_def two_minutes_def
      split: option.splits)

subsection \<open>The normalizer: parts\<close>

lemma firstStringField_None:
  "(firstStringField fs obj = None) =
     (\<forall>f v. f \<in> set fs \<longrightarrow> obj f = Some (JStr v) \<longrightarrow> v = [])"
  by (induction fs) (auto split: option.splits json.splits)

lemma firstStringField_Some_nonempty: "firstStringField fs obj = Some v \<Longrightarrow> v \<noteq> []"
  by (induction fs) (auto split: option.splits json.splits if_splits)

lemma structuredBranch_processed_parts: "structuredBranch env a = (ps, True) \<Longrightarrow> ps \<noteq> []"
  by (auto simp: structuredBranch_def Let_def
      split: json.splits sum.splits if_splits option.splits)

lemma structuredBranch_no_url:
  "firstStringField urlFields (map_of kvs) = None \<Longrightarrow> structuredBranch env (JObj kvs) = ([], False)"
  by (simp add: structuredBranch_def)

text \<open>
  C7. \<^verbatim>\<open>ConvertMessageFunc\<close> never returns an error and always returns at least one
  part. When the text is empty and the attachment is \<^verbatim>\<open>nil\<close>, or neither an object
  nor a non-empty string, or an object none of whose six URL fields holds a non-empty
  string, the result is the single text part "(Empty message)".
\<close>

theorem C7_normalizer_nonempty:
  "(\<exists>ps. ConvertMessageFunc env data = Inr ps \<and> ps \<noteq> []) \<and>
   (Content data = [] \<and>
    (Attachment data = JNull \<or> (\<exists>b. Attachment data = JBool b)
     \<or> (\<exists>n. Attachment data = JNum n) \<or> (\<exists>xs. Attachment data = JArr xs)
     \<or> Attachment data = JStr []
     \<or> (\<exists>kvs. Attachment data = JObj kvs \<and>
           (\<forall>f v. f \<in> set urlFields \<longrightarrow> map_of kvs f = Some (JStr v) \<longrightarrow> v = [])))
    \<longrightarrow> ConvertMessageFunc env data = Inr [text_part ''(Empty message)''])"
proof (intro conjI impI)
  show "\<exists>ps. ConvertMessageFunc env data = Inr ps \<and> ps \<noteq> []"
    by (auto simp: ConvertMessageFunc_def Let_def split: prod.splits)
next
  assume h: "Content data = [] \<and>
    (Attachment data = JNull \<or> (\<exists>b. Attachment data = JBool b)
     \<or> (\<exists>n. Attachment data = JNum n) \<or> (\<exists>xs. Attachment data = JArr xs)
     \<or> Attachment data = JStr []
     \<or> (\<exists>kvs. Attachment data = JObj kvs \<and>
           (\<forall>f v. f \<in> set urlFields \<longrightarrow> map_of kvs f = Some (JStr v) \<longrightarrow> v = [])))"
  then have sb: "structuredBranch env (Attachment data) = ([], False)"
  proof (cases "Attachment data")
    case (JObj kvs)
    with h have "firstStringField urlFields (map_of kvs) = None"
      by (simp add: firstStringField_None)
    with JObj show ?thesis by (simp add: structuredBranch_no_url)
  qed (simp_all add: structuredBranch_def)
  from h have st: "stringBranch env (Attachment data) = []"
    by (auto simp: stringBranch_def)
  from h sb st show "ConvertMessageFunc env data = Inr [text_part ''(Empty message)'']"
    by (simp add: ConvertMessageFunc_def Let_def)
qed

theorem C7_normalizer_nonempty_witness:
  "Content caption_only_msg = [] \<and>
   Attachment caption_only_msg = JObj [(''caption'', JStr ''pool''), (''url'', JStr [])] \<and>
   ConvertMessageFunc no_network caption_only_msg = Inr [text_part ''(Empty message)'']"
  using C7_normalizer_nonempty [of no_network caption_only_msg]
  by (simp add: caption_only_msg_def urlFields_def)

subsection \<open>The normalizer: file name of a structured attachment\<close>

lemma strings_Index_ge: "- 1 \<le> strings_Index s sub"
  by (induction s) (auto simp: Let_def)

lemma strings_Contains_iff: "strings_Contains s sub = (\<exists>a b. s = a @ sub @ b)"
  unfolding strings_Contains_def
proof (induction s)
  case Nil
  show ?case by auto
next
  case (Cons c s)
  show ?case
  proof (cases "prefix sub (c # s)")
    case True
    then obtain b where "c # s = sub @ b" by (auto simp: prefix_def)
    then have "c # s = [] @ sub @ b" by simp
    then have "\<exists>a b. c # s = a @ sub @ b" by blast
    moreover from True have "strings_Index (c # s) sub = 0" by simp
    ultimately show ?thesis by simp
  next
    case False
    have "(\<exists>a b. c # s = a @ sub @ b) = (\<exists>a b. s = a @ sub @ b)"
    proof
      assume "\<exists>a b. c # s = a @ sub @ b"
      then obtain a b where ab: "c # s = a @ sub @ b" by blast
      with False have "a \<noteq> []" by (auto simp: prefix_def)
      with ab obtain a' where "a = c # a'" by (cases a) auto
      with ab show "\<exists>a b. s = a @ sub @ b" by auto
    next
      assume "\<exists>a b. s = a @ sub @ b"
      then obtain a b where "s = a @ sub @ b" by blast
      then have "c # s = (c # a) @ sub @ b" by simp
      then show "\<exists>a b. c # s = a @ sub @ b" by blast
    qed
    with False Cons strings_Index_ge [of s sub] show ?thesis
      by (auto simp: Let_def)
  qed
qed

lemma strings_LastIndex_absent:
  "c \<notin> set s \<Longrightarrow> strings_LastIndex s [c] = - 1"
  by (induction s) (auto simp: Let_def)

lemma strings_LastIndex_last:
  "c \<notin> set tok \<Longrightarrow> strings_LastIndex (a @ c # tok) [c] = int (length a)"
  by (induction a) (auto simp: Let_def strings_LastIndex_absent)

lemma strings_Split_nonempty: "strings_Split s sep \<noteq> []"
  by (induction s) (auto split: list.splits)

lemma strings_Split_none: "sep \<notin> set s \<Longrightarrow> strings_Split s sep = [s]"
  by (induction s) auto

lemma strings_Split_append:
  "strings_Split (a @ sep # b) sep = strings_Split a sep @ strings_Split b sep"
proof (induction a)
  case Nil
  show ?case by simp
next
  case (Cons c a)
  obtain p ps where "strings_Split a sep = p # ps"
    using strings_Split_nonempty [of a sep] by (cases "strings_Split a sep") auto
  with Cons show ?case by simp
qed

lemma size_name_plain:
  "isSizeName tok \<Longrightarrow> tok \<noteq> [] \<and> CHR ''/'' \<notin> set tok \<and> \<not> strings_Contains tok ''?''
     \<and> \<not> strings_Contains tok ''.''"
  by (auto simp: isSizeName_def strings_Contains_def)

lemma filenameFromURL_last_segment:
  assumes "isSizeName tok"
  shows "filenameFromURL fn (a @ CHR ''/'' # tok) = tok"
proof -
  from size_name_plain [OF assms] have t: "tok \<noteq> []" "CHR ''/'' \<notin> set tok"
    "\<not> strings_Contains tok ''?''" by simp_all
  from t(2) have l: "strings_LastIndex (a @ CHR ''/'' # tok) ''/'' = int (length a)"
    by (rule strings_LastIndex_last)
  have n: "nat (int (length a) + 1) = Suc (length a)" by simp
  have d: "drop (Suc (length a)) (a @ CHR ''/'' # tok) = tok" by simp
  show ?thesis
    unfolding filenameFromURL_def Let_def l n d using t by simp
qed

lemma sizeNameFix_jpeg_segment:
  assumes tok: "isSizeName tok"
    and seg: "CHR ''/'' \<notin> set seg"
    and ext: "suffix ''.jpg'' seg \<or> suffix ''.jpeg'' seg"
  shows "sizeNameFix tok (pre @ ''/'' @ seg @ ''/'' @ tok) = seg"
proof -
  let ?url = "pre @ ''/'' @ seg @ ''/'' @ tok"
  from ext obtain b where b: "seg = b @ ''.jpg'' \<or> seg = b @ ''.jpeg''"
    by (auto simp: suffix_def)
  then have dot: "strings_Contains seg ''.''"
    unfolding strings_Contains_iff by (metis append_Cons append_Nil)
  have "?url = (pre @ ''/'' @ b) @ ''.jpg/'' @ tok \<or> ?url = (pre @ ''/'' @ b) @ ''.jpeg/'' @ tok"
    using b by auto
  then have jpg: "strings_Contains ?url ''.jpeg/'' \<or> strings_Contains ?url ''.jpg/''"
    unfolding strings_Contains_iff by blast
  from size_name_plain [OF tok] have t: "CHR ''/'' \<notin> set tok" by simp
  have parts: "strings_Split ?url CHR ''/'' = strings_Split pre CHR ''/'' @ [seg, tok]"
    using strings_Split_append [of pre "CHR ''/''" "seg @ ''/'' @ tok"]
      strings_Split_append [of seg "CHR ''/''" tok]
    by (simp add: strings_Split_none [OF seg] strings_Split_none [OF t])
  have bl: "butlast (strings_Split pre CHR ''/'' @ [seg, tok]) = strings_Split pre CHR ''/'' @ [seg]"
    by (simp add: butlast_append)
  have notsize: "\<not> isSizeName seg"
    using size_name_plain [of seg] dot by blast
  have "sizeNameFix tok ?url = seg"
    unfolding sizeNameFix_def Let_def parts bl
    using tok jpg notsize dot by simp
  then show ?thesis .
qed

text \<open>
  C10, as amended. For a structured attachment none of whose fields filename, name
  and title holds a non-empty string, and whose URL ends in a size name (xlarge, large,
  medium or small) directly after a path segment that ends in ".jpg" or ".jpeg", the
  resolved file name is that segment.
\<close>

theorem C10_size_token_filename:
  assumes "\<forall>f v. f \<in> set nameFields \<longrightarrow> attachmentObj f = Some (JStr v) \<longrightarrow> v = []"
    and "attachmentURL = pre @ ''/'' @ seg @ ''/'' @ tok"
    and "tok = ''xlarge'' \<or> tok = ''large'' \<or> tok = ''medium'' \<or> tok = ''small''"
    and "CHR ''/'' \<notin> set seg"
    and "suffix ''.jpg'' seg \<or> suffix ''.jpeg'' seg"
  shows "attachmentFilename attachmentObj attachmentURL = seg"
proof -
  from assms(1) have n: "firstStringField nameFields attachmentObj = None"
    by (simp add: firstStringField_None)
  from assms(3) have tok: "isSizeName tok" by (simp add: isSizeName_def)
  have u: "attachmentURL = (pre @ ''/'' @ seg) @ CHR ''/'' # tok"
    using assms(2) by simp
  have f: "filenameFromURL ''attachment'' attachmentURL = tok"
    unfolding u using tok by (rule filenameFromURL_last_segment)
  have s: "sizeNameFix tok attachmentURL = seg"
    unfolding assms(2) using tok assms(4,5) by (rule sizeNameFix_jpeg_segment)
  from assms(2) have "attachmentURL \<noteq> []" by simp
  with n f s show ?thesis by (simp add: attachmentFilename_def)
qed

theorem C10_size_token_filename_witness:
  "attachmentFilename (map_of [(''fullback_url'', JStr ''https://cdn.hostex.io/img/photo.jpg/xlarge'')])
     (''https://cdn.hostex.io/img'' @ ''/'' @ ''photo.jpg'' @ ''/'' @ ''xlarge'') = ''photo.jpg''"
  using C10_size_token_filename
    [of "map_of [(''fullback_url'', JStr ''https://cdn.hostex.io/img/photo.jpg/xlarge'')]"
        "''https://cdn.hostex.io/img'' @ ''/'' @ ''photo.jpg'' @ ''/'' @ ''xlarge''"
        "''https://cdn.hostex.io/img''" "''photo.jpg''" "''xlarge''"]
  by (simp add: nameFields_def suffix_def)

text \<open>
  C10 as stated fails for any other extension: the segment before the size name is
  looked for only in a URL that contains ".jpeg/" or ".jpg/", so "photo.png/xlarge"
  resolves to "image.jpg".
\<close>

theorem C10_counterexample:
  "map (map_of [(''fullback_url'', JStr ''https://cdn.hostex.io/img/photo.png/xlarge'')]) nameFields
     = [None, None, None]
   \<and> attachmentFilename
       (map_of [(''fullback_url'', JStr ''https://cdn.hostex.io/img/photo.png/xlarge'')])
       ''https://cdn.hostex.io/img/photo.png/xlarge'' = ''image.jpg''
   \<and> attachmentFilename
       (map_of [(''fullback_url'', JStr ''https://cdn.hostex.io/img/photo.png/xlarge'')])
       ''https://cdn.hostex.io/img/photo.png/xlarge'' \<noteq> ''photo.png''"
  by (simp add: attachmentFilename_def nameFields_def filenameFromURL_def sizeNameFix_def
      isSizeName_def strings_Contains_def Let_def)

subsection \<open>The normalizer: MIME type of a structured attachment\<close>

lemma structuredBranch_uploaded:
  assumes "firstStringField urlFields (map_of kvs) = Some url"
    and "http_Get env url = Inr resp"
    and "ReadAll_Body resp = Inr imageData"
    and "UploadMedia env imageData (attachmentFilename (map_of kvs) url)
           (uploadMimeType (attachmentMimeType (map_of kvs)) (Header_Content_Type resp))
         = Inr mxcURL"
    and "mxcURL \<noteq> []"
  shows "structuredBranch env (JObj kvs) =
     ([\<lparr>MsgType = msgTypeOf (uploadMimeType (attachmentMimeType (map_of kvs))
                                (Header_Content_Type resp)),
        Body = attachmentFilename (map_of kvs) url, URL = mxcURL\<rparr>], True)"
proof -
  from assms(1) have "url \<noteq> []"
    by (rule firstStringField_Some_nonempty)
  with assms show ?thesis by (simp add: structuredBranch_def Let_def)
qed

lemma uploadMimeType_resolution:
  "uploadMimeType (attachmentMimeType obj) hdr =
     (if hdr \<noteq> [] then hdr
      else case firstStringField typeFields obj of
             Some attachType \<Rightarrow> (if attachType = ''image'' then ''image/jpeg'' else attachType)
           | None \<Rightarrow> ''application/octet-stream'')"
proof (cases "firstStringField typeFields obj")
  case None
  then show ?thesis by (simp add: uploadMimeType_def attachmentMimeType_def)
next
  case (Some t)
  then have "t \<noteq> []" by (rule firstStringField_Some_nonempty)
  with Some show ?thesis by (simp add: uploadMimeType_def attachmentMimeType_def)
qed

lemma ConvertMessageFunc_processed:
  assumes "structuredBranch env (Attachment data) = (ps, True)"
  shows "ConvertMessageFunc env data =
     Inr ((if Content data \<noteq> [] then [text_part (Content data)] else []) @ ps)"
proof -
  from assms have ne: "ps \<noteq> []" by (rule structuredBranch_processed_parts)
  from assms have "Attachment data \<noteq> JNull"
    by (auto simp: structuredBranch_def)
  with assms ne show ?thesis
    by (simp add: ConvertMessageFunc_def Let_def)
qed

text \<open>
  C8, as amended. For a structured attachment that is downloaded and read, the MIME
  type the upload is made with, which also decides between an image and a file part, is
  the response's Content-Type header when that is not empty; otherwise the first
  non-empty string among the fields type, mime_type, mimeType and content_type (with
  "image" replaced by "image/jpeg"); otherwise "application/octet-stream". The delivered
  part carries the URL that this upload returns.
\<close>

theorem C8_mime_type:
  assumes "Attachment data = JObj kvs"
    and "firstStringField urlFields (map_of kvs) = Some url"
    and "http_Get env url = Inr resp"
    and "ReadAll_Body resp = Inr imageData"
    and "UploadMedia env imageData (attachmentFilename (map_of kvs) url)
           (uploadMimeType (attachmentMimeType (map_of kvs)) (Header_Content_Type resp))
         = Inr mxcURL"
    and "mxcURL \<noteq> []"
  shows "uploadMimeType (attachmentMimeType (map_of kvs)) (Header_Content_Type resp) =
           (if Header_Content_Type resp \<noteq> [] then Header_Content_Type resp
            else case firstStringField typeFields (map_of kvs) of
                   Some attachType \<Rightarrow> (if attachType = ''image'' then ''image/jpeg'' else attachType)
                 | None \<Rightarrow> ''application/octet-stream'')
    \<and> ConvertMessageFunc env data =
        Inr ((if Content data \<noteq> [] then [text_part (Content data)] else [])
             @ [\<lparr>MsgType = msgTypeOf (uploadMimeType (attachmentMimeType (map_of kvs))
                                       (Header_Content_Type resp)),
                 Body = attachmentFilename (map_of kvs) url, URL = mxcURL\<rparr>])"
proof
  show "uploadMimeType (attachmentMimeType (map_of kvs)) (Header_Content_Type resp) =
           (if Header_Content_Type resp \<noteq> [] then Header_Content_Type resp
            else case firstStringField typeFields (map_of kvs) of
                   Some attachType \<Rightarrow> (if attachType = ''image'' then ''image/jpeg'' else attachType)
                 | None \<Rightarrow> ''application/octet-stream'')"
    by (rule uploadMimeType_resolution)
next
  have "structuredBranch env (JObj kvs) =
     ([\<lparr>MsgType = msgTypeOf (uploadMimeType (attachmentMimeType (map_of kvs))
                                (Header_Content_Type resp)),
        Body = attachmentFilename (map_of kvs) url, URL = mxcURL\<rparr>], True)"
    using assms(2-6) by (rule structuredBranch_uploaded)
  then have "structuredBranch env (Attachment data) =
     ([\<lparr>MsgType = msgTypeOf (uploadMimeType (attachmentMimeType (map_of kvs))
                                (Header_Content_Type resp)),
        Body = attachmentFilename (map_of kvs) url, URL = mxcURL\<rparr>], True)"
    unfolding assms(1) .
  then show "ConvertMessageFunc env data =
        Inr ((if Content data \<noteq> [] then [text_part (Content data)] else [])
             @ [\<lparr>MsgType = msgTypeOf (uploadMimeType (attachmentMimeType (map_of kvs))
                                       (Header_Content_Type resp)),
                 Body = attachmentFilename (map_of kvs) url, URL = mxcURL\<rparr>])"
    by (rule ConvertMessageFunc_processed)
qed

lemma scan_filename:
  "attachmentFilename
     (map_of [(''url'', JStr ''https://cdn.hostex.io/f/scan''), (''type'', JStr ''image'')])
     ''https://cdn.hostex.io/f/scan'' = ''scan''"
  by (simp add: attachmentFilename_def nameFields_def filenameFromURL_def sizeNameFix_def
      isSizeName_def strings_Contains_def Let_def)

theorem C8_mime_type_witness:
  "Attachment typed_image_msg
     = JObj [(''url'', JStr ''https://cdn.hostex.io/f/scan''), (''type'', JStr ''image'')]
   \<and> http_Get headerless_server ''https://cdn.hostex.io/f/scan''
     = Inr \<lparr>Header_Content_Type = [], ReadAll_Body = Inr ''JFIF''\<rparr>
   \<and> ConvertMessageFunc headerless_server typed_image_msg =
       Inr [\<lparr>MsgType = MsgImage, Body = ''scan'', URL = ''mxc://hs/image/jpeg''\<rparr>]"
proof -
  let ?kvs = "[(''url'', JStr ''https://cdn.hostex.io/f/scan''), (''type'', JStr ''image'')]"
  let ?resp = "\<lparr>Header_Content_Type = [], ReadAll_Body = Inr ''JFIF''\<rparr>"
  have mime: "uploadMimeType (attachmentMimeType (map_of ?kvs)) (Header_Content_Type ?resp)
              = ''image/jpeg''"
    by (simp add: uploadMimeType_def attachmentMimeType_def typeFields_def)
  have h1: "Attachment typed_image_msg = JObj ?kvs" by (simp add: typed_image_msg_def)
  have h2: "firstStringField urlFields (map_of ?kvs) = Some ''https://cdn.hostex.io/f/scan''"
    by (simp add: urlFields_def)
  have h3: "http_Get headerless_server ''https://cdn.hostex.io/f/scan'' = Inr ?resp"
    by (simp add: headerless_server_def)
  have h4: "ReadAll_Body ?resp = Inr ''JFIF''" by simp
  have h5: "UploadMedia headerless_server ''JFIF''
              (attachmentFilename (map_of ?kvs) ''https://cdn.hostex.io/f/scan'')
              (uploadMimeType (attachmentMimeType (map_of ?kvs)) (Header_Content_Type ?resp))
            = Inr ''mxc://hs/image/jpeg''"
    unfolding scan_filename mime by (simp add: headerless_server_def)
  have h6: "''mxc://hs/image/jpeg'' \<noteq> []" by simp
  have mt: "msgTypeOf ''image/jpeg'' = MsgImage"
    by (simp add: msgTypeOf_def strings_HasPrefix_def)
  have c: "Content typed_image_msg = []" by (simp add: typed_image_msg_def)
  from C8_mime_type [OF h1 h2 h3 h4 h5 h6]
  have "ConvertMessageFunc headerless_server typed_image_msg =
       Inr [\<lparr>MsgType = MsgImage, Body = ''scan'', URL = ''mxc://hs/image/jpeg''\<rparr>]"
    unfolding scan_filename mime mt c by simp
  with h1 h3 show ?thesis by blast
qed

lemma scan_mime:
  "uploadMimeType
     (attachmentMimeType
        (map_of [(''url'', JStr ''https://cdn.hostex.io/f/scan''), (''type'', JStr ''image'')]))
     ''application/pdf'' = ''application/pdf''"
  by (simp add: uploadMimeType_def)

lemma scan_converted:
  "ConvertMessageFunc pdf_server typed_image_msg =
     Inr [\<lparr>MsgType = MsgFile, Body = ''scan'', URL = ''mxc://hs/application/pdf''\<rparr>]"
proof -
  let ?kvs = "[(''url'', JStr ''https://cdn.hostex.io/f/scan''), (''type'', JStr ''image'')]"
  let ?resp = "\<lparr>Header_Content_Type = ''application/pdf'', ReadAll_Body = Inr ''%PDF-1.7''\<rparr>"
  have h2: "firstStringField urlFields (map_of ?kvs) = Some ''https://cdn.hostex.io/f/scan''"
    by (simp add: urlFields_def)
  have h3: "http_Get pdf_server ''https://cdn.hostex.io/f/scan'' = Inr ?resp"
    by (simp add: pdf_server_def)
  have h4: "ReadAll_Body ?resp = Inr ''%PDF-1.7''" by simp
  have h5: "UploadMedia pdf_server ''%PDF-1.7''
              (attachmentFilename (map_of ?kvs) ''https://cdn.hostex.io/f/scan'')
              (uploadMimeType (attachmentMimeType (map_of ?kvs)) (Header_Content_Type ?resp))
            = Inr ''mxc://hs/application/pdf''"
    unfolding scan_filename by (simp add: pdf_server_def uploadMimeType_def)
  have h6: "''mxc://hs/application/pdf'' \<noteq> []" by simp
  have mt: "msgTypeOf ''application/pdf'' = MsgFile"
    by (simp add: msgTypeOf_def strings_HasPrefix_def)
  have "structuredBranch pdf_server (JObj ?kvs) =
          ([\<lparr>MsgType = MsgFile, Body = ''scan'', URL = ''mxc://hs/application/pdf''\<rparr>], True)"
    using structuredBranch_uploaded [OF h2 h3 h4 h5 h6]
    unfolding scan_filename by (simp add: uploadMimeType_def mt)
  then have "structuredBranch pdf_server (Attachment typed_image_msg) =
          ([\<lparr>MsgType = MsgFile, Body = ''scan'', URL = ''mxc://hs/application/pdf''\<rparr>], True)"
    by (simp add: typed_image_msg_def)
  from ConvertMessageFunc_processed [OF this] show ?thesis
    by (simp add: typed_image_msg_def)
qed

text \<open>
  C8 as stated fails: an attachment of declared type "image" served with the header
  "application/pdf" is uploaded as "application/pdf" and delivered as a file.
\<close>

theorem C8_counterexample:
  "firstStringField typeFields
     (map_of [(''url'', JStr ''https://cdn.hostex.io/f/scan''), (''type'', JStr ''image'')])
     = Some ''image''
   \<and> http_Get pdf_server ''https://cdn.hostex.io/f/scan'' =
       Inr \<lparr>Header_Content_Type = ''application/pdf'', ReadAll_Body = Inr ''%PDF-1.7''\<rparr>
   \<and> uploadMimeType
       (attachmentMimeType
          (map_of [(''url'', JStr ''https://cdn.hostex.io/f/scan''), (''type'', JStr ''image'')]))
       ''application/pdf'' \<noteq> ''image/jpeg''
   \<and> ConvertMessageFunc pdf_server typed_image_msg =
       Inr [\<lparr>MsgType = MsgFile, Body = ''scan'', URL = ''mxc://hs/application/pdf''\<rparr>]"
  unfolding scan_converted scan_mime
  by (simp add: typeFields_def pdf_server_def)

subsection \<open>The sync engine: one conversation\<close>

lemma queueMessageEvent_eventOf:
  "queueMessageEvent hn now cid msg cid = (if isEcho hn now msg then [] else [eventOf hn cid msg])"
  by (simp add: queueMessageEvent_def eventOf_def)

lemma concat_queue:
  "concat (map (\<lambda>msg. queueMessageEvent hn now cid msg cid) ms) =
   map (eventOf hn cid) (filter (\<lambda>msg. \<not> isEcho hn now msg) ms)"
  by (induction ms) (simp_all add: queueMessageEvent_eventOf)

lemma newMessages_snd:
  "snd (newMessages hn now cid lp ms latest) =
   map (eventOf hn cid) (filter (\<lambda>msg. lp < CreatedAt msg \<and> \<not> isEcho hn now msg) ms)"
  by (induction ms arbitrary: latest) (simp_all add: Let_def split_beta queueMessageEvent_eventOf)

lemma newMessages_fst_ge: "latest \<le> fst (newMessages hn now cid lp ms latest)"
proof (induction ms arbitrary: latest)
  case Nil
  show ?case by simp
next
  case (Cons msg ms)
  have "latest \<le> (if latest < CreatedAt msg then CreatedAt msg else latest)" by simp
  also have "\<dots> \<le> fst (newMessages hn now cid lp ms (if latest < CreatedAt msg then CreatedAt msg else latest))"
    by (rule Cons.IH)
  finally show ?case by (simp add: Let_def split_beta)
qed

lemma processConversation_fetch_fails:
  "GetConversationDetails env (Conv_ID conv) = Inl err \<Longrightarrow>
   processConversation env conv hn = (hn, [DetailFetch (Conv_ID conv)])"
  by (simp add: processConversation_def)

lemma processConversation_new_room:
  assumes "GetConversationDetails env (Conv_ID conv) = Inr details"
    and "\<not> roomExists env (Conv_ID conv)"
  shows "\<exists>name topic.
     snd (processConversation env conv hn) =
       [DetailFetch (Conv_ID conv),
        ChatInfoChange (Conv_ID conv) True name topic (LastMessageAt conv)]
       @ map (eventOf hn (Conv_ID conv))
           (rev (filter (\<lambda>msg. \<not> isEcho hn (time_Now env) msg) (Messages details)))"
    and "fst (processConversation env conv hn)
         = hn\<lparr>guestNames := (guestNames hn)(Conv_ID conv \<mapsto> Guest_Name conv)\<rparr>"
  using assms
  by (auto simp: processConversation_def Let_def roomExists_def concat_queue rev_filter
      isEcho_def eventOf_def split: option.splits)

lemma processConversation_existing_mark:
  assumes "GetConversationDetails env (Conv_ID conv) = Inr details"
    and "roomExists env (Conv_ID conv)"
    and "lastMessageTime hn (Conv_ID conv) = Some m"
  shows "\<exists>name topic.
     snd (processConversation env conv hn) =
       [DetailFetch (Conv_ID conv),
        ChatInfoChange (Conv_ID conv) False name topic (LastMessageAt conv)]
       @ map (eventOf hn (Conv_ID conv))
           (rev (filter (\<lambda>msg. m < CreatedAt msg \<and> \<not> isEcho hn (time_Now env) msg) (Messages details)))"
    and "\<exists>m'. lastMessageTime (fst (processConversation env conv hn)) (Conv_ID conv) = Some m' \<and> m \<le> m'"
proof -
  let ?hn1 = "hn\<lparr>guestNames := (guestNames hn)(Conv_ID conv \<mapsto> Guest_Name conv)\<rparr>"
  have e: "isEcho ?hn1 = isEcho hn" "eventOf ?hn1 = eventOf hn"
    by (auto simp: isEcho_def eventOf_def fun_eq_iff)
  from assms show "\<exists>name topic.
     snd (processConversation env conv hn) =
       [DetailFetch (Conv_ID conv),
        ChatInfoChange (Conv_ID conv) False name topic (LastMessageAt conv)]
       @ map (eventOf hn (Conv_ID conv))
           (rev (filter (\<lambda>msg. m < CreatedAt msg \<and> \<not> isEcho hn (time_Now env) msg) (Messages details)))"
    by (auto simp: processConversation_def Let_def roomExists_def split_beta newMessages_snd e
        rev_filter split: option.splits)
  have "m \<le> fst (newMessages ?hn1 (time_Now env) (Conv_ID conv) m (rev (Messages details)) m)"
    by (rule newMessages_fst_ge)
  with assms show "\<exists>m'. lastMessageTime (fst (processConversation env conv hn)) (Conv_ID conv) = Some m' \<and> m \<le> m'"
    by (auto simp: processConversation_def Let_def roomExists_def split_beta
        split: option.splits)
qed

lemma action_conv_eventOf [simp]: "action_conv (eventOf hn cid msg) = cid"
  by (simp add: eventOf_def)

lemma processConversation_frame:
  "conversationLastMsgTime (fst (processConversation env conv hn)) = conversationLastMsgTime hn"
  "sentMessages (fst (processConversation env conv hn)) = sentMessages hn"
  "login_ID (fst (processConversation env conv hn)) = login_ID hn"
  by (auto simp: processConversation_def Let_def split_beta split: sum.splits option.splits)

lemma processConversation_other:
  "k \<noteq> Conv_ID conv \<Longrightarrow>
   lastMessageTime (fst (processConversation env conv hn)) k = lastMessageTime hn k"
  "k \<noteq> Conv_ID conv \<Longrightarrow>
   guestNames (fst (processConversation env conv hn)) k = guestNames hn k"
  by (auto simp: processConversation_def Let_def split_beta split: sum.splits option.splits)

lemma processConversation_actions:
  "a \<in> set (snd (processConversation env conv hn)) \<Longrightarrow> action_conv a = Conv_ID conv"
  by (auto simp: processConversation_def Let_def split_beta newMessages_snd concat_queue
      split: sum.splits option.splits if_splits)

subsection \<open>The sync engine: the loop over the conversations\<close>

lemma syncLoop_skipped:
  assumes "conversationLastMsgTime hn cid = Some t"
    and "\<forall>c\<in>set convs. Conv_ID c = cid \<longrightarrow> LastMessageAt c \<le> t"
  shows "(\<forall>a\<in>set (snd (syncLoop env convs hn)). action_conv a \<noteq> cid)
       \<and> lastMessageTime (fst (syncLoop env convs hn)) cid = lastMessageTime hn cid
       \<and> conversationLastMsgTime (fst (syncLoop env convs hn)) cid = Some t
       \<and> guestNames (fst (syncLoop env convs hn)) cid = guestNames hn cid"
  using assms
proof (induction convs arbitrary: hn)
  case Nil
  then show ?case by simp
next
  case (Cons conv convs)
  show ?case
  proof (cases "case conversationLastMsgTime hn (Conv_ID conv) of
                    Some cachedLastMsgTime \<Rightarrow> \<not> (cachedLastMsgTime < LastMessageAt conv)
                  | None \<Rightarrow> False")
    case True
    then have "syncLoop env (conv # convs) hn = syncLoop env convs hn" by simp
    with Cons show ?thesis by simp
  next
    case False
    have ne: "Conv_ID conv \<noteq> cid"
    proof
      assume "Conv_ID conv = cid"
      with Cons.prems False show False by auto
    qed
    let ?hn1 = "hn\<lparr>conversationLastMsgTime :=
                          (conversationLastMsgTime hn)(Conv_ID conv \<mapsto> LastMessageAt conv)\<rparr>"
    let ?r = "processConversation env conv ?hn1"
    have eq: "syncLoop env (conv # convs) hn =
          (fst (syncLoop env convs (fst ?r)), snd ?r @ snd (syncLoop env convs (fst ?r)))"
      using False by (simp add: Let_def split_beta)
    have c2: "conversationLastMsgTime (fst ?r) cid = Some t"
      using ne Cons.prems by (simp add: processConversation_frame)
    have ih: "(\<forall>a\<in>set (snd (syncLoop env convs (fst ?r))). action_conv a \<noteq> cid)
       \<and> lastMessageTime (fst (syncLoop env convs (fst ?r))) cid = lastMessageTime (fst ?r) cid
       \<and> conversationLastMsgTime (fst (syncLoop env convs (fst ?r))) cid = Some t
       \<and> guestNames (fst (syncLoop env convs (fst ?r))) cid = guestNames (fst ?r) cid"
      using Cons.IH [OF c2] Cons.prems by simp
    have here: "\<forall>a\<in>set (snd ?r). action_conv a \<noteq> cid"
      using processConversation_actions [of _ env conv ?hn1] ne by auto
    have l: "lastMessageTime (fst ?r) cid = lastMessageTime hn cid"
      "guestNames (fst ?r) cid = guestNames hn cid"
      using ne by (simp_all add: processConversation_other)
    from ih here l show ?thesis unfolding eq by auto
  qed
qed

lemma syncLoop_cache_mono:
  "conversationLastMsgTime hn k = Some t \<Longrightarrow>
   \<exists>t'. conversationLastMsgTime (fst (syncLoop env convs hn)) k = Some t' \<and> t \<le> t'"
proof (induction convs arbitrary: hn t)
  case Nil
  then show ?case by simp
next
  case (Cons conv convs)
  show ?case
  proof (cases "case conversationLastMsgTime hn (Conv_ID conv) of
                    Some cachedLastMsgTime \<Rightarrow> \<not> (cachedLastMsgTime < LastMessageAt conv)
                  | None \<Rightarrow> False")
    case True
    then have "syncLoop env (conv # convs) hn = syncLoop env convs hn" by simp
    with Cons show ?thesis by simp
  next
    case False
    let ?hn1 = "hn\<lparr>conversationLastMsgTime :=
                          (conversationLastMsgTime hn)(Conv_ID conv \<mapsto> LastMessageAt conv)\<rparr>"
    let ?r = "processConversation env conv ?hn1"
    have eq: "fst (syncLoop env (conv # convs) hn) = fst (syncLoop env convs (fst ?r))"
      using False by (simp add: Let_def split_beta)
    have "\<exists>t1. conversationLastMsgTime (fst ?r) k = Some t1 \<and> t \<le> t1"
      using False Cons.prems by (auto simp: processConversation_frame)
    then obtain t1 where t1: "conversationLastMsgTime (fst ?r) k = Some t1" "t \<le> t1" by blast
    from Cons.IH [OF t1(1)] t1(2) show ?thesis unfolding eq by force
  qed
qed

lemma syncLoop_cached_after:
  "c \<in> set convs \<Longrightarrow>
   \<exists>t. conversationLastMsgTime (fst (syncLoop env convs hn)) (Conv_ID c) = Some t
        \<and> LastMessageAt c \<le> t"
proof (induction convs arbitrary: hn)
  case Nil
  then show ?case by simp
next
  case (Cons conv convs)
  let ?skip = "case conversationLastMsgTime hn (Conv_ID conv) of
                    Some cachedLastMsgTime \<Rightarrow> \<not> (cachedLastMsgTime < LastMessageAt conv)
                  | None \<Rightarrow> False"
  let ?hn1 = "hn\<lparr>conversationLastMsgTime :=
                          (conversationLastMsgTime hn)(Conv_ID conv \<mapsto> LastMessageAt conv)\<rparr>"
  let ?r = "processConversation env conv ?hn1"
  let ?next = "if ?skip then hn else fst ?r"
  have eq: "fst (syncLoop env (conv # convs) hn) = fst (syncLoop env convs ?next)"
    by (simp add: Let_def split_beta)
  show ?case
  proof (cases "c = conv")
    case True
    have "\<exists>t. conversationLastMsgTime ?next (Conv_ID conv) = Some t \<and> LastMessageAt conv \<le> t"
      by (auto simp: processConversation_frame split: option.splits)
    then obtain t where t: "conversationLastMsgTime ?next (Conv_ID conv) = Some t"
      "LastMessageAt conv \<le> t" by blast
    from syncLoop_cache_mono [OF t(1), of env convs] t(2) True show ?thesis
      unfolding eq by force
  next
    case False
    with Cons.prems have "c \<in> set convs" by simp
    from Cons.IH [OF this, of ?next] show ?thesis unfolding eq .
  qed
qed

lemma syncConversations_syncLoop:
  "GetConversations env = Inr convs \<Longrightarrow> syncConversations env hn = syncLoop env (take 10 convs) hn"
  by (simp add: syncConversations_def)

lemma syncConversations_list_fails:
  "GetConversations env = Inl err \<Longrightarrow> syncConversations env hn = (hn, [])"
  by (simp add: syncConversations_def)

text \<open>
  C3. When \<^verbatim>\<open>syncConversations\<close> runs on a list in which every entry (among the ten
  it looks at) of conversation \<open>cid\<close> has an activity timestamp that is not after the
  cached one, it makes no detail fetch and queues no event for \<open>cid\<close>, and the mark, the
  cached activity timestamp and the guest name of \<open>cid\<close> are what they were. And when a
  poll has looked at a conversation, a second poll in which its activity timestamp has
  not advanced makes no detail fetch for it.
\<close>

theorem C3_cheap_skip:
  "(GetConversations env = Inr convs \<and> conversationLastMsgTime hn cid = Some t \<and>
    (\<forall>c\<in>set (take 10 convs). Conv_ID c = cid \<longrightarrow> LastMessageAt c \<le> t)
    \<longrightarrow> DetailFetch cid \<notin> set (snd (syncConversations env hn))
      \<and> (\<forall>a\<in>set (snd (syncConversations env hn)). action_conv a \<noteq> cid)
      \<and> lastMessageTime (fst (syncConversations env hn)) cid = lastMessageTime hn cid
      \<and> conversationLastMsgTime (fst (syncConversations env hn)) cid
          = conversationLastMsgTime hn cid
      \<and> guestNames (fst (syncConversations env hn)) cid = guestNames hn cid)
   \<and> (GetConversations env1 = Inr convs1 \<and> c1 \<in> set (take 10 convs1) \<and>
      GetConversations env2 = Inr convs2 \<and>
      (\<forall>c\<in>set (take 10 convs2). Conv_ID c = Conv_ID c1 \<longrightarrow> LastMessageAt c \<le> LastMessageAt c1)
      \<longrightarrow> DetailFetch (Conv_ID c1)
            \<notin> set (snd (syncConversations env2 (fst (syncConversations env1 hn0)))))"
proof (intro conjI impI)
  assume h: "GetConversations env = Inr convs \<and> conversationLastMsgTime hn cid = Some t \<and>
    (\<forall>c\<in>set (take 10 convs). Conv_ID c = cid \<longrightarrow> LastMessageAt c \<le> t)"
  then have s: "syncConversations env hn = syncLoop env (take 10 convs) hn"
    by (simp add: syncConversations_syncLoop)
  from h have sk:
    "(\<forall>a\<in>set (snd (syncLoop env (take 10 convs) hn)). action_conv a \<noteq> cid)
       \<and> lastMessageTime (fst (syncLoop env (take 10 convs) hn)) cid = lastMessageTime hn cid
       \<and> conversationLastMsgTime (fst (syncLoop env (take 10 convs) hn)) cid = Some t
       \<and> guestNames (fst (syncLoop env (take 10 convs) hn)) cid = guestNames hn cid"
    by (intro syncLoop_skipped) simp_all
  from sk show "\<forall>a\<in>set (snd (syncConversations env hn)). action_conv a \<noteq> cid"
    unfolding s by blast
  then show "DetailFetch cid \<notin> set (snd (syncConversations env hn))" by force
  from sk show "lastMessageTime (fst (syncConversations env hn)) cid = lastMessageTime hn cid"
    unfolding s by blast
  from sk h show "conversationLastMsgTime (fst (syncConversations env hn)) cid
          = conversationLastMsgTime hn cid"
    unfolding s by simp
  from sk show "guestNames (fst (syncConversations env hn)) cid = guestNames hn cid"
    unfolding s by blast
next
  assume h: "GetConversations env1 = Inr convs1 \<and> c1 \<in> set (take 10 convs1) \<and>
      GetConversations env2 = Inr convs2 \<and>
      (\<forall>c\<in>set (take 10 convs2). Conv_ID c = Conv_ID c1 \<longrightarrow> LastMessageAt c \<le> LastMessageAt c1)"
  let ?hn1 = "fst (syncConversations env1 hn0)"
  from h have s1: "?hn1 = fst (syncLoop env1 (take 10 convs1) hn0)"
    by (simp add: syncConversations_syncLoop)
  from h have s2: "syncConversations env2 ?hn1 = syncLoop env2 (take 10 convs2) ?hn1"
    by (simp add: syncConversations_syncLoop)
  from h syncLoop_cached_after [of c1 "take 10 convs1" env1 hn0]
  obtain t where t: "conversationLastMsgTime ?hn1 (Conv_ID c1) = Some t" "LastMessageAt c1 \<le> t"
    unfolding s1 by blast
  have "\<forall>c\<in>set (take 10 convs2). Conv_ID c = Conv_ID c1 \<longrightarrow> LastMessageAt c \<le> t"
    using h t(2) by force
  from syncLoop_skipped [OF t(1) this, of env2]
  have "\<forall>a\<in>set (snd (syncLoop env2 (take 10 convs2) ?hn1)). action_conv a \<noteq> Conv_ID c1"
    by blast
  then show "DetailFetch (Conv_ID c1)
            \<notin> set (snd (syncConversations env2 (fst (syncConversations env1 hn0))))"
    unfolding s2 by force
qed

theorem C3_cheap_skip_witness:
  "GetConversations (world (Inr five_messages) (Some ''!r:hs'')) = Inr [conv_c1]
   \<and> conversationLastMsgTime (fresh_login\<lparr>conversationLastMsgTime := [''c1'' \<mapsto> 5]\<rparr>) ''c1''
       = Some 5
   \<and> list_all (\<lambda>c. LastMessageAt c \<le> 5) (take 10 [conv_c1])
   \<and> snd (syncConversations (world (Inr five_messages) (Some ''!r:hs''))
        (fresh_login\<lparr>conversationLastMsgTime := [''c1'' \<mapsto> 5]\<rparr>)) = []
   \<and> conv_c1 \<in> set (take 10 [conv_c1])
   \<and> DetailFetch (Conv_ID conv_c1)
        \<in> set (snd (syncConversations (world (Inr five_messages) (Some ''!r:hs'')) fresh_login))
   \<and> DetailFetch (Conv_ID conv_c1)
        \<notin> set (snd (syncConversations (world (Inr five_messages) (Some ''!r:hs''))
                 (fst (syncConversations (world (Inr five_messages) (Some ''!r:hs''))
                        fresh_login))))"
proof -
  let ?env = "world (Inr five_messages) (Some ''!r:hs'')"
  let ?hn = "fresh_login\<lparr>conversationLastMsgTime := [''c1'' \<mapsto> 5]\<rparr>"
  have h1: "GetConversations ?env = Inr [conv_c1]" by (simp add: world_def)
  have h2: "conversationLastMsgTime ?hn ''c1'' = Some 5" by simp
  have h3: "\<forall>c\<in>set (take 10 [conv_c1]). Conv_ID c = Conv_ID conv_c1 \<longrightarrow> LastMessageAt c \<le> 5"
    by (simp add: conv_c1_def)
  have h3': "list_all (\<lambda>c. LastMessageAt c \<le> 5) (take 10 [conv_c1])"
    by (simp add: conv_c1_def)
  have h4: "conv_c1 \<in> set (take 10 [conv_c1])" by simp
  have h5: "\<forall>c\<in>set (take 10 [conv_c1]). Conv_ID c = Conv_ID conv_c1
              \<longrightarrow> LastMessageAt c \<le> LastMessageAt conv_c1"
    by simp
  have e0: "snd (syncConversations ?env ?hn) = []"
    by (simp add: sync_defs example_defs)
  have e1: "DetailFetch (Conv_ID conv_c1) \<in> set (snd (syncConversations ?env fresh_login))"
    by (simp add: sync_defs example_defs)
  note t = C3_cheap_skip [of ?env "[conv_c1]" ?hn "Conv_ID conv_c1" 5 ?env "[conv_c1]" conv_c1
      ?env "[conv_c1]" fresh_login]
  from t h1 h2 h3 have "\<forall>a\<in>set (snd (syncConversations ?env ?hn)). action_conv a \<noteq> Conv_ID conv_c1"
    by (simp add: conv_c1_def)
  from t h1 h4 h5
  have "DetailFetch (Conv_ID conv_c1)
        \<notin> set (snd (syncConversations ?env (fst (syncConversations ?env fresh_login))))"
    by (simp add: conv_c1_def)
  with h1 h2 h3' h4 e0 e1 show ?thesis by blast
qed

subsection \<open>The sync engine: marks and emission\<close>

lemma late_other: "action_conv a \<noteq> cid \<Longrightarrow> late cid m a"
  by (cases a) (auto simp: late_def)

lemma processConversation_late:
  assumes "roomExists env cid" and "lastMessageTime hn cid = Some m0" and "m \<le> m0"
  shows "(\<exists>m1. lastMessageTime (fst (processConversation env conv hn)) cid = Some m1 \<and> m \<le> m1)
       \<and> (\<forall>a\<in>set (snd (processConversation env conv hn)). late cid m a)"
proof (cases "Conv_ID conv = cid")
  case False
  then show ?thesis
    using assms processConversation_actions [of _ env conv hn]
    by (auto simp: processConversation_other intro!: late_other)
next
  case True
  show ?thesis
  proof (cases "GetConversationDetails env (Conv_ID conv)")
    case (Inl err)
    with assms show ?thesis
      by (simp add: processConversation_fetch_fails late_def)
  next
    case (Inr details)
    from True assms have r: "roomExists env (Conv_ID conv)"
      and l: "lastMessageTime hn (Conv_ID conv) = Some m0" by simp_all
    from processConversation_existing_mark(2) [OF Inr r l] assms(3) True
    have a: "\<exists>m1. lastMessageTime (fst (processConversation env conv hn)) cid = Some m1 \<and> m \<le> m1"
      by force
    from processConversation_existing_mark(1) [OF Inr r l] assms(3) True
    have b: "\<forall>a\<in>set (snd (processConversation env conv hn)). late cid m a"
      by (auto simp: late_def eventOf_def)
    from a b show ?thesis by blast
  qed
qed

lemma syncLoop_late:
  assumes "roomExists env cid" and "lastMessageTime hn cid = Some m0" and "m \<le> m0"
  shows "(\<exists>m1. lastMessageTime (fst (syncLoop env convs hn)) cid = Some m1 \<and> m \<le> m1)
       \<and> (\<forall>a\<in>set (snd (syncLoop env convs hn)). late cid m a)"
  using assms(2,3)
proof (induction convs arbitrary: hn m0)
  case Nil
  then show ?case by simp
next
  case (Cons conv convs)
  show ?case
  proof (cases "case conversationLastMsgTime hn (Conv_ID conv) of
                    Some cachedLastMsgTime \<Rightarrow> \<not> (cachedLastMsgTime < LastMessageAt conv)
                  | None \<Rightarrow> False")
    case True
    then have "syncLoop env (conv # convs) hn = syncLoop env convs hn" by simp
    with Cons show ?thesis by simp
  next
    case False
    let ?hn1 = "hn\<lparr>conversationLastMsgTime :=
                          (conversationLastMsgTime hn)(Conv_ID conv \<mapsto> LastMessageAt conv)\<rparr>"
    let ?r = "processConversation env conv ?hn1"
    have eq: "syncLoop env (conv # convs) hn =
          (fst (syncLoop env convs (fst ?r)), snd ?r @ snd (syncLoop env convs (fst ?r)))"
      using False by (simp add: Let_def split_beta)
    have "lastMessageTime ?hn1 cid = Some m0" using Cons.prems by simp
    from processConversation_late [OF assms(1) this Cons.prems(2), of conv]
    obtain m1 where m1: "lastMessageTime (fst ?r) cid = Some m1" "m \<le> m1"
      and here: "\<forall>a\<in>set (snd ?r). late cid m a" by blast
    from Cons.IH [OF m1] here show ?thesis unfolding eq by auto
  qed
qed

lemma run_step_late:
  assumes "stepRoomExists cid st" and "lastMessageTime hn cid = Some m0" and "m \<le> m0"
  shows "(\<exists>m1. lastMessageTime (fst (run_step st hn)) cid = Some m1 \<and> m \<le> m1)
       \<and> (\<forall>a\<in>set (snd (run_step st hn)). late cid m a)"
proof (cases st)
  case (Poll env)
  with assms(1) have r: "roomExists env cid" by (simp add: stepRoomExists_def)
  show ?thesis
  proof (cases "GetConversations env")
    case (Inl err)
    with Poll assms show ?thesis by (simp add: syncConversations_list_fails)
  next
    case (Inr convs)
    with Poll syncLoop_late [OF r assms(2,3)] show ?thesis
      by (simp add: syncConversations_syncLoop)
  qed
next
  case (MatrixSend portal body sendResult now)
  with assms show ?thesis
    by (auto simp: HandleMatrixMessage_def split: option.splits sum.splits)
next
  case (Refresh env)
  with assms(1) have r: "roomExists env cid" by (simp add: stepRoomExists_def)
  have l: "lastMessageTime (clearConversationCache hn) cid = Some m0"
    using assms(2) by (simp add: clearConversationCache_def)
  show ?thesis
  proof (cases "GetConversations env")
    case (Inl err)
    with Refresh l assms show ?thesis by (simp add: syncConversations_list_fails)
  next
    case (Inr convs)
    with Refresh syncLoop_late [OF r l assms(3)] show ?thesis
      by (simp add: syncConversations_syncLoop)
  qed
qed

lemma run_late:
  assumes "list_all (stepRoomExists cid) sts" and "lastMessageTime hn cid = Some m0" and "m \<le> m0"
  shows "\<forall>a\<in>set (snd (run sts hn)). late cid m a"
  using assms
proof (induction sts arbitrary: hn m0)
  case Nil
  then show ?case by simp
next
  case (Cons st sts)
  from Cons.prems have s: "stepRoomExists cid st" and r: "list_all (stepRoomExists cid) sts"
    by simp_all
  from run_step_late [OF s Cons.prems(2,3)]
  obtain m1 where m1: "lastMessageTime (fst (run_step st hn)) cid = Some m1" "m \<le> m1"
    and here: "\<forall>a\<in>set (snd (run_step st hn)). late cid m a" by blast
  from Cons.IH [OF r m1] here show ?case
    by (auto simp: split_beta Let_def)
qed

lemma ascending_after_rev_filter:
  "sorted_wrt (>) (map CreatedAt ms) \<Longrightarrow> sorted_wrt (<) (map CreatedAt (rev (filter P ms)))"
  by (simp add: sorted_wrt_map sorted_wrt_rev rev_map [symmetric] sorted_wrt_filter)

lemma nondescending_after_rev_filter:
  "sorted_wrt (\<ge>) (map CreatedAt ms) \<Longrightarrow> sorted_wrt (\<le>) (map CreatedAt (rev (filter P ms)))"
  by (simp add: sorted_wrt_map sorted_wrt_rev rev_map [symmetric] sorted_wrt_filter)

lemma distinct_events:
  assumes "sorted_wrt (<) (map CreatedAt ms)"
  shows "distinct (map (eventOf hn cid) ms)"
proof -
  from assms have "distinct (map CreatedAt ms)"
    by (simp add: strict_sorted_iff)
  then have "distinct ms" by (simp add: distinct_map)
  then show ?thesis by (simp add: distinct_map inj_on_def eventOf_def)
qed

text \<open>
  C2, as amended. For a conversation whose room exists and whose mark \<open>m\<close> is stored,
  \<^verbatim>\<open>processConversation\<close> fetches the detail, queues the room update and then one
  message event for each message of the detail that is later than \<open>m\<close> and not
  suppressed as an echo, from the last entry of the detail to the first; when the detail
  is strictly newest-first these events are in strictly ascending order of time and no
  two are equal. In no sequence of later steps (polls, refreshes, messages sent from
  Matrix) in which the room exists is a message event queued for the conversation whose
  time is at or before \<open>m\<close>.
\<close>

theorem C2_new_messages:
  assumes "GetConversationDetails env (Conv_ID conv) = Inr details"
    and "roomExists env (Conv_ID conv)"
    and "lastMessageTime hn (Conv_ID conv) = Some m"
  shows
   "(\<exists>name topic.
       snd (processConversation env conv hn) =
         [DetailFetch (Conv_ID conv),
          ChatInfoChange (Conv_ID conv) False name topic (LastMessageAt conv)]
         @ map (eventOf hn (Conv_ID conv))
             (rev (filter (\<lambda>msg. m < CreatedAt msg \<and> \<not> isEcho hn (time_Now env) msg)
                     (Messages details))))
    \<and> (sorted_wrt (>) (map CreatedAt (Messages details)) \<longrightarrow>
         sorted_wrt (<) (map CreatedAt
             (rev (filter (\<lambda>msg. m < CreatedAt msg \<and> \<not> isEcho hn (time_Now env) msg)
                     (Messages details))))
         \<and> distinct (map (eventOf hn (Conv_ID conv))
             (rev (filter (\<lambda>msg. m < CreatedAt msg \<and> \<not> isEcho hn (time_Now env) msg)
                     (Messages details)))))
    \<and> (\<forall>sts. list_all (stepRoomExists (Conv_ID conv)) sts \<longrightarrow>
         (\<forall>a\<in>set (snd (run sts hn)). \<forall>s f msg.
            a = MessageEvent (Conv_ID conv) s f msg \<longrightarrow> m < CreatedAt msg))"
proof (intro conjI impI allI)
  show "\<exists>name topic.
       snd (processConversation env conv hn) =
         [DetailFetch (Conv_ID conv),
          ChatInfoChange (Conv_ID conv) False name topic (LastMessageAt conv)]
         @ map (eventOf hn (Conv_ID conv))
             (rev (filter (\<lambda>msg. m < CreatedAt msg \<and> \<not> isEcho hn (time_Now env) msg)
                     (Messages details)))"
    by (rule processConversation_existing_mark(1) [OF assms])
next
  assume s: "sorted_wrt (>) (map CreatedAt (Messages details))"
  then show a: "sorted_wrt (<) (map CreatedAt
             (rev (filter (\<lambda>msg. m < CreatedAt msg \<and> \<not> isEcho hn (time_Now env) msg)
                     (Messages details))))"
    by (rule ascending_after_rev_filter)
  then show "distinct (map (eventOf hn (Conv_ID conv))
             (rev (filter (\<lambda>msg. m < CreatedAt msg \<and> \<not> isEcho hn (time_Now env) msg)
                     (Messages details))))"
    by (rule distinct_events)
next
  fix sts
  assume "list_all (stepRoomExists (Conv_ID conv)) sts"
  from run_late [OF this assms(3) order_refl]
  show "\<forall>a\<in>set (snd (run sts hn)). \<forall>s f msg.
            a = MessageEvent (Conv_ID conv) s f msg \<longrightarrow> m < CreatedAt msg"
    by (auto simp: late_def)
qed

theorem C2_new_messages_witness:
  "GetConversationDetails (world (Inr echo_details) (Some ''!r:hs'')) (Conv_ID conv_c1)
     = Inr echo_details
   \<and> roomExists (world (Inr echo_details) (Some ''!r:hs'')) (Conv_ID conv_c1)
   \<and> lastMessageTime echo_state (Conv_ID conv_c1) = Some 1
   \<and> sorted_wrt (>) (map CreatedAt (Messages echo_details))
   \<and> list_all (stepRoomExists (Conv_ID conv_c1))
        [Poll (world (Inr echo_details) (Some ''!r:hs'')),
         MatrixSend (Some ''c1'') ''Hello'' (Inl ''timeout'') 1001,
         Refresh (world (Inr five_messages) (Some ''!r:hs''))]
   \<and> snd (processConversation (world (Inr echo_details) (Some ''!r:hs'')) conv_c1 echo_state) =
       [DetailFetch ''c1'', ChatInfoChange ''c1'' False ''(Villa) - Ann'' ''Villa'' 5,
        MessageEvent ''c1'' ''guest_c1'' False (example_message ''m2'' ''guest'' ''Where are you?'' 2)]
   \<and> list_all (late ''c1'' 1)
        (snd (run [Poll (world (Inr echo_details) (Some ''!r:hs'')),
                   MatrixSend (Some ''c1'') ''Hello'' (Inl ''timeout'') 1001,
                   Refresh (world (Inr five_messages) (Some ''!r:hs''))] echo_state))"
proof -
  let ?env = "world (Inr echo_details) (Some ''!r:hs'')"
  let ?sts = "[Poll ?env, MatrixSend (Some ''c1'') ''Hello'' (Inl ''timeout'') 1001,
               Refresh (world (Inr five_messages) (Some ''!r:hs''))]"
  have h1: "GetConversationDetails ?env (Conv_ID conv_c1) = Inr echo_details"
    by (simp add: world_def)
  have h2: "roomExists ?env (Conv_ID conv_c1)"
    by (simp add: world_def roomExists_def)
  have h3: "lastMessageTime echo_state (Conv_ID conv_c1) = Some 1"
    by (simp add: echo_state_def conv_c1_def)
  have h4: "sorted_wrt (>) (map CreatedAt (Messages echo_details))"
    by (simp add: echo_details_def example_message_def)
  have h5: "list_all (stepRoomExists (Conv_ID conv_c1)) ?sts"
    by (simp add: stepRoomExists_def roomExists_def world_def)
  note t = C2_new_messages [OF h1 h2 h3]
  from t h5 have "\<forall>a\<in>set (snd (run ?sts echo_state)). \<forall>s f msg.
            a = MessageEvent (Conv_ID conv_c1) s f msg \<longrightarrow> 1 < CreatedAt msg"
    by blast
  then have l: "list_all (late ''c1'' 1) (snd (run ?sts echo_state))"
    by (auto simp: list_all_iff late_def conv_c1_def split: action.splits)
  have e: "snd (processConversation ?env conv_c1 echo_state) =
       [DetailFetch ''c1'', ChatInfoChange ''c1'' False ''(Villa) - Ann'' ''Villa'' 5,
        MessageEvent ''c1'' ''guest_c1'' False (example_message ''m2'' ''guest'' ''Where are you?'' 2)]"
    by (simp add: sync_defs example_defs echo_state_def echo_details_def)
  from h1 h2 h3 h4 h5 l e show ?thesis by blast
qed

text \<open>
  C2 as stated fails: a host message later than the mark whose body was sent from
  Matrix ten time units earlier is not queued.
\<close>

theorem C2_counterexample:
  "roomExists (world (Inr echo_details) (Some ''!r:hs'')) ''c1''
   \<and> lastMessageTime echo_state ''c1'' = Some 1
   \<and> 1 < CreatedAt (example_message ''m3'' ''host'' ''On my way'' 3)
   \<and> snd (processConversation (world (Inr echo_details) (Some ''!r:hs'')) conv_c1 echo_state) =
       [DetailFetch ''c1'', ChatInfoChange ''c1'' False ''(Villa) - Ann'' ''Villa'' 5,
        MessageEvent ''c1'' ''guest_c1'' False (example_message ''m2'' ''guest'' ''Where are you?'' 2)]
   \<and> (\<forall>s f. MessageEvent ''c1'' s f (example_message ''m3'' ''host'' ''On my way'' 3)
        \<notin> set (snd (processConversation (world (Inr echo_details) (Some ''!r:hs'')) conv_c1
                      echo_state)))"
  by (simp add: sync_defs example_defs echo_state_def echo_details_def roomExists_def)

text \<open>
  C5, as amended. For a conversation with no room, \<^verbatim>\<open>processConversation\<close> fetches
  the detail, queues a room-creating chat-info change and then one message event for
  each message of the detail that is not suppressed as an echo, from the last entry of
  the detail to the first (oldest to newest when the detail is newest-first).
\<close>

theorem C5_backfill:
  assumes "GetConversationDetails env (Conv_ID conv) = Inr details"
    and "\<not> roomExists env (Conv_ID conv)"
  shows
   "(\<exists>name topic.
       snd (processConversation env conv hn) =
         [DetailFetch (Conv_ID conv),
          ChatInfoChange (Conv_ID conv) True name topic (LastMessageAt conv)]
         @ map (eventOf hn (Conv_ID conv))
             (rev (filter (\<lambda>msg. \<not> isEcho hn (time_Now env) msg) (Messages details))))
    \<and> (sorted_wrt (\<ge>) (map CreatedAt (Messages details)) \<longrightarrow>
         sorted_wrt (\<le>) (map CreatedAt
             (rev (filter (\<lambda>msg. \<not> isEcho hn (time_Now env) msg) (Messages details)))))"
  using processConversation_new_room(1) [OF assms] nondescending_after_rev_filter
  by blast

theorem C5_backfill_witness:
  "GetConversationDetails (world (Inr echo_details) None) (Conv_ID conv_c1) = Inr echo_details
   \<and> \<not> roomExists (world (Inr echo_details) None) (Conv_ID conv_c1)
   \<and> sorted_wrt (\<ge>) (map CreatedAt (Messages echo_details))
   \<and> (\<exists>name topic.
       snd (processConversation (world (Inr echo_details) None) conv_c1 fresh_login) =
         [DetailFetch (Conv_ID conv_c1),
          ChatInfoChange (Conv_ID conv_c1) True name topic (LastMessageAt conv_c1)]
         @ map (eventOf fresh_login (Conv_ID conv_c1)) (rev (Messages echo_details)))
   \<and> sorted_wrt (\<le>) (map CreatedAt (rev (Messages echo_details)))"
proof -
  let ?env = "world (Inr echo_details) None"
  have h1: "GetConversationDetails ?env (Conv_ID conv_c1) = Inr echo_details"
    by (simp add: world_def)
  have h2: "\<not> roomExists ?env (Conv_ID conv_c1)"
    by (simp add: world_def roomExists_def)
  have h3: "sorted_wrt (\<ge>) (map CreatedAt (Messages echo_details))"
    by (simp add: echo_details_def example_message_def)
  have f: "filter (\<lambda>msg. \<not> isEcho fresh_login (time_Now ?env) msg) (Messages echo_details)
           = Messages echo_details"
    by (simp add: isEcho_def fresh_login_def)
  from C5_backfill [OF h1 h2, of fresh_login] h3 f h1 h2 show ?thesis by simp
qed

text \<open>
  C5 as stated fails: with the body "On my way" sent from Matrix ten time units before
  the poll, the host message of the history is not queued; and the step stores no mark.
\<close>

theorem C5_counterexample:
  "\<not> roomExists (world (Inr echo_details) None) ''c1''
   \<and> snd (processConversation (world (Inr echo_details) None) conv_c1 echo_backfill_state) =
       [DetailFetch ''c1'', ChatInfoChange ''c1'' True ''(Villa) - Ann'' ''Villa'' 5,
        MessageEvent ''c1'' ''guest_c1'' False (example_message ''m1'' ''guest'' ''Hello'' 1),
        MessageEvent ''c1'' ''guest_c1'' False (example_message ''m2'' ''guest'' ''Where are you?'' 2)]
   \<and> (\<forall>s f. MessageEvent ''c1'' s f (example_message ''m3'' ''host'' ''On my way'' 3)
        \<notin> set (snd (processConversation (world (Inr echo_details) None) conv_c1
                      echo_backfill_state)))
   \<and> lastMessageTime
        (fst (processConversation (world (Inr echo_details) None) conv_c1 echo_backfill_state))
        ''c1'' \<noteq> Some 3"
  by (simp add: sync_defs example_defs echo_backfill_state_def echo_details_def roomExists_def)

text \<open>
  C1, evaluated. An existing room, no stored mark, five messages at times 5 to 1: one
  run of \<^verbatim>\<open>syncConversations\<close> queues the four messages later than the oldest one
  and leaves the mark at 5, the time of the newest.
\<close>

theorem C1_first_contact:
  "snd (syncConversations (world (Inr five_messages) (Some ''!r:hs'')) fresh_login) =
     [DetailFetch ''c1'', ChatInfoChange ''c1'' False ''(Villa) - Ann'' ''Villa'' 5,
      MessageEvent ''c1'' ''guest_c1'' False (example_message ''m2'' ''guest'' ''b'' 2),
      MessageEvent ''c1'' ''guest_c1'' False (example_message ''m3'' ''guest'' ''c'' 3),
      MessageEvent ''c1'' ''guest_c1'' False (example_message ''m4'' ''guest'' ''d'' 4),
      MessageEvent ''c1'' ''guest_c1'' False (example_message ''m5'' ''guest'' ''e'' 5)]
   \<and> lastMessageTime (fst (syncConversations (world (Inr five_messages) (Some ''!r:hs'')) fresh_login))
        ''c1'' = Some 5"
  by (simp add: sync_defs example_defs)

text \<open>
  C6, evaluated. A poll whose detail fetch fails has already cached the activity
  timestamp, so the next poll, with the timestamp unchanged and the remote service
  answering again, makes no detail fetch.
\<close>

theorem C6_no_retry:
  "snd (syncConversations (world (Inl ''context deadline exceeded'') (Some ''!r:hs'')) fresh_login)
     = [DetailFetch ''c1'']
   \<and> snd (syncConversations (world (Inr five_messages) (Some ''!r:hs''))
        (fst (syncConversations (world (Inl ''context deadline exceeded'') (Some ''!r:hs''))
               fresh_login)))
     = []"
  by (simp add: sync_defs example_defs)

end
